theory Spec2Isabelle
  imports Complex_Main
begin

section \<open>Python values\<close>

text \<open>
  Python floats are modelled as exact reals: the rounding error of IEEE arithmetic is
  outside the model, and NaN occurs only as an empty cell of a DataFrame column or as a
  value of \<open>np_float\<close> below. Python integers are \<open>int\<close>. Calendar dates (pandas
  timestamps) are ordinal day numbers. An exception is a value of \<open>py_error\<close> on the
  left of a sum. A division of Python floats by zero raises \<^verbatim>\<open>ZeroDivisionError\<close>; a
  division of \<^verbatim>\<open>numpy.float64\<close> values by zero returns an infinity or NaN, and
  \<^verbatim>\<open>int()\<close> raises \<^verbatim>\<open>OverflowError\<close> on an infinity and \<^verbatim>\<open>ValueError\<close> on NaN.
\<close>

datatype py_error = KeyError | ZeroDivisionError | ValueError | OverflowError

type_synonym date = nat

text \<open>\<^verbatim>\<open>int(x)\<close> on a float truncates towards zero.\<close>

definition py_int :: "real \<Rightarrow> int" where
  "py_int x = (if 0 \<le> x then \<lfloor>x\<rfloor> else \<lceil>x\<rceil>)"

text \<open>
  A \<^verbatim>\<open>numpy.float64\<close> value where a division by zero can have produced it: a finite
  number, an infinity or NaN. The sign of a zero is not modelled: a zero divisor counts
  as \<open>+0.0\<close>. Every comparison with NaN is false.
\<close>

datatype np_float = Fin real | PosInf | NegInf | NaN

definition np_div :: "real \<Rightarrow> real \<Rightarrow> np_float" where
  "np_div x y =
     (if y \<noteq> 0 then Fin (x / y)
      else if 0 < x then PosInf else if x < 0 then NegInf else NaN)"

fun np_quot :: "np_float \<Rightarrow> np_float \<Rightarrow> np_float" where
  "np_quot (Fin x) (Fin y) = np_div x y"
| "np_quot (Fin x) PosInf = Fin 0"
| "np_quot (Fin x) NegInf = Fin 0"
| "np_quot (Fin x) NaN = NaN"
| "np_quot PosInf (Fin y) = (if 0 \<le> y then PosInf else NegInf)"
| "np_quot PosInf PosInf = NaN"
| "np_quot PosInf NegInf = NaN"
| "np_quot PosInf NaN = NaN"
| "np_quot NegInf (Fin y) = (if 0 \<le> y then NegInf else PosInf)"
| "np_quot NegInf PosInf = NaN"
| "np_quot NegInf NegInf = NaN"
| "np_quot NegInf NaN = NaN"
| "np_quot NaN b = NaN"

fun np_add :: "np_float \<Rightarrow> np_float \<Rightarrow> np_float" where
  "np_add (Fin x) (Fin y) = Fin (x + y)"
| "np_add (Fin x) PosInf = PosInf"
| "np_add (Fin x) NegInf = NegInf"
| "np_add (Fin x) NaN = NaN"
| "np_add PosInf (Fin y) = PosInf"
| "np_add PosInf PosInf = PosInf"
| "np_add PosInf NegInf = NaN"
| "np_add PosInf NaN = NaN"
| "np_add NegInf (Fin y) = NegInf"
| "np_add NegInf PosInf = NaN"
| "np_add NegInf NegInf = NegInf"
| "np_add NegInf NaN = NaN"
| "np_add NaN b = NaN"

fun np_neg :: "np_float \<Rightarrow> np_float" where
  "np_neg (Fin x) = Fin (- x)"
| "np_neg PosInf = NegInf"
| "np_neg NegInf = PosInf"
| "np_neg NaN = NaN"

definition np_sub :: "np_float \<Rightarrow> np_float \<Rightarrow> np_float" where
  "np_sub a b = np_add a (np_neg b)"

text \<open>The product with a finite factor.\<close>

fun np_times :: "np_float \<Rightarrow> real \<Rightarrow> np_float" where
  "np_times (Fin x) k = Fin (x * k)"
| "np_times PosInf k = (if 0 < k then PosInf else if k < 0 then NegInf else NaN)"
| "np_times NegInf k = (if 0 < k then NegInf else if k < 0 then PosInf else NaN)"
| "np_times NaN k = NaN"

fun np_less :: "np_float \<Rightarrow> np_float \<Rightarrow> bool" where
  "np_less (Fin x) (Fin y) = (x < y)"
| "np_less (Fin x) PosInf = True"
| "np_less (Fin x) NegInf = False"
| "np_less (Fin x) NaN = False"
| "np_less NegInf (Fin y) = True"
| "np_less NegInf PosInf = True"
| "np_less NegInf NegInf = False"
| "np_less NegInf NaN = False"
| "np_less PosInf b = False"
| "np_less NaN b = False"

definition np_greater :: "np_float \<Rightarrow> np_float \<Rightarrow> bool" where
  "np_greater a b = np_less b a"

fun np_less_eq :: "np_float \<Rightarrow> np_float \<Rightarrow> bool" where
  "np_less_eq (Fin x) (Fin y) = (x \<le> y)"
| "np_less_eq (Fin x) PosInf = True"
| "np_less_eq (Fin x) NegInf = False"
| "np_less_eq (Fin x) NaN = False"
| "np_less_eq NegInf (Fin y) = True"
| "np_less_eq NegInf PosInf = True"
| "np_less_eq NegInf NegInf = True"
| "np_less_eq NegInf NaN = False"
| "np_less_eq PosInf (Fin y) = False"
| "np_less_eq PosInf PosInf = True"
| "np_less_eq PosInf NegInf = False"
| "np_less_eq PosInf NaN = False"
| "np_less_eq NaN b = False"

section \<open>The multi-instrument engine: \<^verbatim>\<open>strategy/portfolio_manager.py\<close>\<close>

record PortfolioConfig =
  initial_cash :: real
  commission :: real
  max_position_size :: real
  min_cash_reserve :: real

datatype side = BUY | SELL

text \<open>One entry of \<^verbatim>\<open>trade_log\<close> (a dict in the source).\<close>

record trade =
  t_date :: date
  t_stock :: string
  t_type :: side
  t_price :: real
  t_quantity :: int
  t_value :: real
  t_commission :: real
  t_cash_after :: real

text \<open>One entry of \<^verbatim>\<open>daily_values\<close>; \<open>d_positions\<close> is the copied positions dict.\<close>

record snapshot =
  d_date :: date
  d_cash :: real
  d_stock_value :: real
  d_total_value :: real
  d_positions :: "(string \<times> int) list"

text \<open>
  The manager object. The dict \<^verbatim>\<open>positions\<close> gets its keys in \<^verbatim>\<open>reset\<close>, one per
  element of \<^verbatim>\<open>stocks\<close>, and no key is added or removed afterwards: it is modelled by
  the total function \<open>positions\<close> read on the key set \<open>set stocks\<close>, and a subscript
  with another key is the \<^verbatim>\<open>KeyError\<close> of \<open>positions_item\<close>.
\<close>

record PortfolioManager =
  config :: PortfolioConfig
  stocks :: "string list"
  cash :: real
  positions :: "string \<Rightarrow> int"
  trade_log :: "trade list"
  daily_values :: "snapshot list"

text \<open>
  The keys of the dict \<^verbatim>\<open>{stock: 0 for stock in self.stocks}\<close>, in insertion order: each
  stock once, at its first place in the list.
\<close>

definition dict_keys :: "string list \<Rightarrow> string list" where
  "dict_keys stks = rev (remdups (rev stks))"

text \<open>\<^verbatim>\<open>__init__\<close> followed by \<^verbatim>\<open>reset\<close>: no field of the configuration is checked.\<close>

definition PortfolioManager_init :: "PortfolioConfig \<Rightarrow> string list \<Rightarrow> PortfolioManager" where
  "PortfolioManager_init cfg stks =
     \<lparr>config = cfg, stocks = stks, cash = initial_cash cfg,
      positions = (\<lambda>stock. 0), trade_log = [], daily_values = []\<rparr>"

definition positions_item :: "PortfolioManager \<Rightarrow> string \<Rightarrow> py_error + int" where
  "positions_item pm stock =
     (if stock \<in> set (stocks pm) then Inr (positions pm stock) else Inl KeyError)"

text \<open>A prices dict, in insertion order; \<^verbatim>\<open>prices.get(stock, 0)\<close>.\<close>

type_synonym prices = "(string \<times> real) list"

definition prices_get :: "prices \<Rightarrow> string \<Rightarrow> real" where
  "prices_get prices stock = (case map_of prices stock of None \<Rightarrow> 0 | Some p \<Rightarrow> p)"

definition get_portfolio_value :: "PortfolioManager \<Rightarrow> prices \<Rightarrow> real" where
  "get_portfolio_value pm prices =
     (let stock_value =
            (\<Sum>stock\<leftarrow>stocks pm. real_of_int (positions pm stock) * prices_get prices stock)
      in cash pm + stock_value)"

definition get_available_cash_for_stock :: "PortfolioManager \<Rightarrow> prices \<Rightarrow> real" where
  "get_available_cash_for_stock pm current_prices =
     (let current_portfolio_value = get_portfolio_value pm current_prices;
          max_allocation = current_portfolio_value * max_position_size (config pm);
          min_cash_needed = current_portfolio_value * min_cash_reserve (config pm);
          available_cash = max 0 (cash pm - min_cash_needed)
      in min available_cash max_allocation)"

text \<open>
  \<^verbatim>\<open>can_buy\<close>. The quotient \<^verbatim>\<open>available_cash / price\<close> is reached only when
  \<^verbatim>\<open>available_cash >= price\<close>. The price of a run is a \<^verbatim>\<open>numpy.float64\<close> read from
  the \<^verbatim>\<open>close\<close> column: with \<^verbatim>\<open>price == 0\<close> the quotient is an infinity, or NaN when
  the available cash is 0 too, and \<^verbatim>\<open>int()\<close> raises on it, so that no quantity is
  returned.
\<close>

definition can_buy :: "PortfolioManager \<Rightarrow> string \<Rightarrow> real \<Rightarrow> prices \<Rightarrow> py_error + (bool \<times> int)" where
  "can_buy pm stock price current_prices =
     (case positions_item pm stock of
        Inl e \<Rightarrow> Inl e
      | Inr held \<Rightarrow>
          if held > 0 then Inr (False, 0)
          else
            let available_cash = get_available_cash_for_stock pm current_prices in
            if available_cash < price then Inr (False, 0)
            else
              (case np_div available_cash price of
                 Fin q \<Rightarrow> (let max_qty = py_int q in Inr (max_qty > 0, max_qty))
               | NaN \<Rightarrow> Inl ValueError
               | _ \<Rightarrow> Inl OverflowError))"

definition can_sell :: "PortfolioManager \<Rightarrow> string \<Rightarrow> py_error + (bool \<times> int)" where
  "can_sell pm stock =
     (case positions_item pm stock of
        Inl e \<Rightarrow> Inl e
      | Inr qty \<Rightarrow> Inr (qty > 0, qty))"

definition execute_buy ::
  "PortfolioManager \<Rightarrow> string \<Rightarrow> real \<Rightarrow> date \<Rightarrow> prices \<Rightarrow> py_error + (bool \<times> PortfolioManager)" where
  "execute_buy pm stock price date current_prices =
     (case can_buy pm stock price current_prices of
        Inl e \<Rightarrow> Inl e
      | Inr (ok, max_qty) \<Rightarrow>
          if \<not> ok then Inr (False, pm)
          else
            let trade_value = price * real_of_int max_qty;
                commission_paid = trade_value * commission (config pm);
                total_cost = trade_value + commission_paid;
                cash' = cash pm - total_cost
            in Inr (True,
                 pm\<lparr>cash := cash',
                    positions := (positions pm)(stock := positions pm stock + max_qty),
                    trade_log := trade_log pm @
                      [\<lparr>t_date = date, t_stock = stock, t_type = BUY, t_price = price,
                        t_quantity = max_qty, t_value = trade_value,
                        t_commission = commission_paid, t_cash_after = cash'\<rparr>]\<rparr>))"

definition execute_sell ::
  "PortfolioManager \<Rightarrow> string \<Rightarrow> real \<Rightarrow> date \<Rightarrow> py_error + (bool \<times> PortfolioManager)" where
  "execute_sell pm stock price date =
     (case can_sell pm stock of
        Inl e \<Rightarrow> Inl e
      | Inr (ok, qty) \<Rightarrow>
          if \<not> ok then Inr (False, pm)
          else
            let trade_value = price * real_of_int qty;
                commission_paid = trade_value * commission (config pm);
                total_received = trade_value - commission_paid;
                cash' = cash pm + total_received
            in Inr (True,
                 pm\<lparr>cash := cash',
                    positions := (positions pm)(stock := 0),
                    trade_log := trade_log pm @
                      [\<lparr>t_date = date, t_stock = stock, t_type = SELL, t_price = price,
                        t_quantity = qty, t_value = trade_value,
                        t_commission = commission_paid, t_cash_after = cash'\<rparr>]\<rparr>))"

definition update_daily_value :: "PortfolioManager \<Rightarrow> date \<Rightarrow> prices \<Rightarrow> PortfolioManager" where
  "update_daily_value pm date prices =
     (let portfolio_value = get_portfolio_value pm prices
      in pm\<lparr>daily_values := daily_values pm @
           [\<lparr>d_date = date, d_cash = cash pm,
             d_stock_value = portfolio_value - cash pm,
             d_total_value = portfolio_value,
             d_positions = map (\<lambda>stock. (stock, positions pm stock)) (dict_keys (stocks pm))\<rparr>]\<rparr>)"

text \<open>
  \<^verbatim>\<open>_calculate_max_drawdown\<close>. The loop keeps \<^verbatim>\<open>peak\<close> and \<^verbatim>\<open>max_drawdown\<close> and
  visits every value, the first one included. The values are the totals that
  \<^verbatim>\<open>update_daily_value\<close> recorded: a sum with the \<^verbatim>\<open>numpy.float64\<close> prices of the
  day, hence \<^verbatim>\<open>numpy.float64\<close> themselves. The quotient \<^verbatim>\<open>(peak - value) / peak\<close> has
  no guard: on a zero peak it is an infinity or NaN, and nothing is raised. Python's
  \<^verbatim>\<open>max(a, b)\<close> returns \<open>b\<close> only when \<open>b > a\<close>, which is false when either is NaN.
\<close>

fun drawdown_loop :: "real list \<Rightarrow> real \<Rightarrow> np_float \<Rightarrow> np_float" where
  "drawdown_loop [] peak max_drawdown = max_drawdown"
| "drawdown_loop (v # values) peak max_drawdown =
     (let peak' = (if v > peak then v else peak);
          drawdown = np_times (np_div (peak' - v) peak') 100
      in drawdown_loop values peak'
           (if np_greater drawdown max_drawdown then drawdown else max_drawdown))"

definition calculate_max_drawdown :: "PortfolioManager \<Rightarrow> np_float" where
  "calculate_max_drawdown pm =
     (if length (daily_values pm) < 2 then Fin 0
      else
        let values = map d_total_value (daily_values pm)
        in drawdown_loop values (hd values) (Fin 0))"

section \<open>The daily loop: \<^verbatim>\<open>run_portfolio_backtest\<close> in \<^verbatim>\<open>main.py\<close>\<close>

text \<open>
  A signals DataFrame of one instrument: its index with the columns \<^verbatim>\<open>close\<close>,
  \<^verbatim>\<open>buy\<close> and \<^verbatim>\<open>sell\<close> (the two flags are of dtype bool, as \<^verbatim>\<open>generate_signals\<close>
  builds them), a row being a pair of its date and its cells. \<^verbatim>\<open>all_signals\<close> is a
  dict in insertion order, one frame per ticker.
\<close>

record signal_row =
  close :: real
  buy :: bool
  sell :: bool

type_synonym signal_frame = "(date \<times> signal_row) list"

type_synonym all_signals = "(string \<times> signal_frame) list"

text \<open>\<^verbatim>\<open>sorted(set().union(*[df.index for df in all_signals.values()]))\<close>\<close>

definition all_dates :: "all_signals \<Rightarrow> date list" where
  "all_dates sigs = sort (remdups (concat (map (\<lambda>(ticker, df). map fst df) sigs)))"

text \<open>
  The tickers that have a row on \<open>date\<close>, each with that row, in the order of
  \<^verbatim>\<open>all_signals\<close>: the keys of \<^verbatim>\<open>current_prices\<close> and, for each key, the row
  \<^verbatim>\<open>all_signals[ticker].loc[date]\<close>. It is read only on a date that no frame repeats.
\<close>

fun rows_on :: "all_signals \<Rightarrow> date \<Rightarrow> (string \<times> signal_row) list" where
  "rows_on [] date = []"
| "rows_on ((ticker, df) # rest) date =
     (case map_of df date of
        None \<Rightarrow> rows_on rest date
      | Some row \<Rightarrow> (ticker, row) # rows_on rest date)"

definition current_prices_on :: "all_signals \<Rightarrow> date \<Rightarrow> prices" where
  "current_prices_on sigs date = map (\<lambda>(ticker, row). (ticker, close row)) (rows_on sigs date)"

text \<open>
  The inner loop over \<^verbatim>\<open>current_prices.keys()\<close>: \<^verbatim>\<open>if signals['buy']\<close> calls
  \<^verbatim>\<open>execute_buy\<close>, and only \<^verbatim>\<open>elif signals['sell']\<close> calls \<^verbatim>\<open>execute_sell\<close>. The
  boolean the two calls return is dropped.
\<close>

fun process_signals ::
  "(string \<times> signal_row) list \<Rightarrow> date \<Rightarrow> prices \<Rightarrow> PortfolioManager \<Rightarrow> py_error + PortfolioManager" where
  "process_signals [] date current_prices portfolio = Inr portfolio"
| "process_signals ((ticker, signals) # rest) date current_prices portfolio =
     (let price = close signals in
      if buy signals then
        (case execute_buy portfolio ticker price date current_prices of
           Inl e \<Rightarrow> Inl e
         | Inr (done, portfolio') \<Rightarrow> process_signals rest date current_prices portfolio')
      else if sell signals then
        (case execute_sell portfolio ticker price date of
           Inl e \<Rightarrow> Inl e
         | Inr (done, portfolio') \<Rightarrow> process_signals rest date current_prices portfolio')
      else process_signals rest date current_prices portfolio)"

text \<open>
  A date that some frame holds more than once. There \<^verbatim>\<open>df.loc[date, 'close']\<close> and
  \<^verbatim>\<open>df.loc[date]['buy']\<close> are Series of several rows, and the day ends in a
  \<^verbatim>\<open>ValueError\<close> (the truth value of a Series is ambiguous): at \<^verbatim>\<open>if signals['buy']\<close>
  for that instrument, or before it in the \<^verbatim>\<open>max(0, ...)\<close> of the cash allocator, which
  an earlier instrument's \<^verbatim>\<open>execute_buy\<close> computes from the prices of the day.
\<close>

definition repeated_on :: "all_signals \<Rightarrow> date \<Rightarrow> bool" where
  "repeated_on sigs date =
     list_ex (\<lambda>(ticker, df). 1 < length (filter (\<lambda>(d, row). d = date) df)) sigs"

text \<open>
  One pass of the loop \<^verbatim>\<open>for date in all_dates\<close> (lines 54 to 77): the prices of the
  day, the orders of the day, then the snapshot if any instrument has a price.
\<close>

definition simulate_day :: "all_signals \<Rightarrow> PortfolioManager \<Rightarrow> date \<Rightarrow> py_error + PortfolioManager" where
  "simulate_day sigs portfolio date =
     (if repeated_on sigs date then Inl ValueError
      else
        let current_prices = current_prices_on sigs date in
        case process_signals (rows_on sigs date) date current_prices portfolio of
          Inl e \<Rightarrow> Inl e
        | Inr portfolio' \<Rightarrow>
            if current_prices \<noteq> [] then Inr (update_daily_value portfolio' date current_prices)
            else Inr portfolio')"

fun simulate_dates :: "all_signals \<Rightarrow> date list \<Rightarrow> PortfolioManager \<Rightarrow> py_error + PortfolioManager" where
  "simulate_dates sigs [] portfolio = Inr portfolio"
| "simulate_dates sigs (date # dates) portfolio =
     (case simulate_day sigs portfolio date of
        Inl e \<Rightarrow> Inl e
      | Inr portfolio' \<Rightarrow> simulate_dates sigs dates portfolio')"

text \<open>
  The manager over the tickers of \<^verbatim>\<open>all_signals\<close> (line 38) and the loop over all dates,
  for any configuration.
\<close>

definition simulate :: "PortfolioConfig \<Rightarrow> all_signals \<Rightarrow> py_error + PortfolioManager" where
  "simulate cfg sigs =
     simulate_dates sigs (all_dates sigs) (PortfolioManager_init cfg (map fst sigs))"


section \<open>The indicators and the strategy: \<^verbatim>\<open>indicators.py\<close>, \<^verbatim>\<open>rsi_ma_strategy.py\<close>\<close>

text \<open>
  A float Series that may hold NaN is a list of \<open>real option\<close>, \<open>None\<close> being NaN.
  \<^verbatim>\<open>Series.diff()\<close>: NaN in the first row.
\<close>

definition diff :: "real list \<Rightarrow> real option list" where
  "diff xs = (case xs of [] \<Rightarrow> [] | x # rest \<Rightarrow> None # map (\<lambda>(prev, cur). Some (cur - prev)) (zip xs rest))"

text \<open>\<^verbatim>\<open>clip(lower=lo)\<close> and \<^verbatim>\<open>clip(upper=hi)\<close>: NaN stays NaN.\<close>

definition clip_lower :: "real \<Rightarrow> real option list \<Rightarrow> real option list" where
  "clip_lower lo xs = map (map_option (\<lambda>x. if x < lo then lo else x)) xs"

definition clip_upper :: "real \<Rightarrow> real option list \<Rightarrow> real option list" where
  "clip_upper hi xs = map (map_option (\<lambda>x. if hi < x then hi else x)) xs"

text \<open>
  \<^verbatim>\<open>rolling(window).mean()\<close>: the mean of the last \<open>window\<close> rows, and NaN where these
  are fewer than \<open>window\<close> rows or one of them is NaN (\<^verbatim>\<open>min_periods\<close> is the window).
\<close>

definition rolling_mean :: "nat \<Rightarrow> real option list \<Rightarrow> real option list" where
  "rolling_mean window xs =
     map (\<lambda>i. if window = 0 \<or> Suc i < window then None
               else
                 let w = take window (drop (Suc i - window) xs)
                 in if None \<in> set w then None
                    else Some (sum_list (map the w) / real window))
       [0..<length xs]"

definition sma :: "real list \<Rightarrow> nat \<Rightarrow> real option list" where
  "sma series window = rolling_mean window (map Some series)"

definition of_cell :: "real option \<Rightarrow> np_float" where
  "of_cell c = (case c of None \<Rightarrow> NaN | Some x \<Rightarrow> Fin x)"

text \<open>
  \<^verbatim>\<open>rsi\<close>. The quotient \<^verbatim>\<open>roll_up / roll_down\<close> is a division of \<^verbatim>\<open>numpy.float64\<close>
  values: an infinity or NaN where no close fell within the window.
\<close>

definition rsi :: "real list \<Rightarrow> nat \<Rightarrow> np_float list" where
  "rsi series period =
     (let delta = diff series;
          up = clip_lower 0 delta;
          down = map (map_option uminus) (clip_upper 0 delta);
          roll_up = rolling_mean period up;
          roll_down = rolling_mean period down;
          rs = map (\<lambda>(u, d). np_quot (of_cell u) (of_cell d)) (zip roll_up roll_down)
      in map (\<lambda>r. np_sub (Fin 100) (np_quot (Fin 100) (np_add (Fin 1) r))) rs)"

record RSIMAStrategyConfig =
  rsi_period :: nat
  fast_ma :: nat
  slow_ma :: nat
  buy_rsi :: int
  sell_rsi :: int

text \<open>\<^verbatim>\<open>shift(1).fillna(False)\<close> on a bool column.\<close>

definition shift_fill :: "bool list \<Rightarrow> bool list" where
  "shift_fill xs = (if xs = [] then [] else False # butlast xs)"

text \<open>
  \<^verbatim>\<open>_compute_indicators\<close>, as far as \<^verbatim>\<open>generate_signals\<close> reads its columns: for each
  row the RSI and the two crossover flags.
\<close>

definition compute_indicators :: "RSIMAStrategyConfig \<Rightarrow> real list \<Rightarrow> (np_float \<times> bool \<times> bool) list" where
  "compute_indicators cfg closes =
     (let ma_fast = sma closes (fast_ma cfg);
          ma_slow = sma closes (slow_ma cfg);
          ma_cross = map (\<lambda>(f, s). np_greater (of_cell f) (of_cell s)) (zip ma_fast ma_slow);
          ma_cross_prev = shift_fill ma_cross;
          bullish_crossover = map (\<lambda>(c, p). c \<and> \<not> p) (zip ma_cross ma_cross_prev);
          bearish_crossover = map (\<lambda>(c, p). \<not> c \<and> p) (zip ma_cross ma_cross_prev)
      in zip (rsi closes (rsi_period cfg)) (zip bullish_crossover bearish_crossover))"

text \<open>
  A price frame of \<^verbatim>\<open>data_dict\<close>: its index and its \<^verbatim>\<open>close\<close> column, which is all
  that the strategy and the engine read. \<^verbatim>\<open>generate_signals\<close> drops the flag columns
  that the frame may have and sets \<^verbatim>\<open>buy\<close> and \<^verbatim>\<open>sell\<close> from the indicators.
\<close>

type_synonym price_frame = "(date \<times> real) list"

definition generate_signals :: "RSIMAStrategyConfig \<Rightarrow> price_frame \<Rightarrow> signal_frame" where
  "generate_signals cfg df =
     map (\<lambda>((date, c), (r, bullish_crossover, bearish_crossover)).
            (date,
             \<lparr>close = c,
              buy = (np_less r (Fin (real_of_int (buy_rsi cfg)))
                     \<or> (np_less r (Fin 45) \<and> bullish_crossover)),
              sell = (np_greater r (Fin (real_of_int (sell_rsi cfg)))
                      \<or> (np_greater r (Fin 55) \<and> bearish_crossover))\<rparr>))
       (zip df (compute_indicators cfg (map snd df)))"

text \<open>
  \<^verbatim>\<open>run_portfolio_backtest\<close>: \<open>cfg\<close> is the configuration file, with the cash and the
  commission rate of its \<^verbatim>\<open>backtest\<close> section and its \<^verbatim>\<open>strategy\<close> section. The two
  fractions are fixed. The signals are computed from the prices of \<^verbatim>\<open>data_dict\<close>
  (lines 41 to 47), and the manager and the signals are returned.
\<close>

record configuration =
  cfg_initial_cash :: real
  cfg_commission :: real
  cfg_strategy :: RSIMAStrategyConfig

definition run_portfolio_backtest ::
  "(string \<times> price_frame) list \<Rightarrow> configuration \<Rightarrow> py_error + (PortfolioManager \<times> all_signals)" where
  "run_portfolio_backtest data_dict cfg =
     (let portfolio_config =
            \<lparr>initial_cash = cfg_initial_cash cfg, commission = cfg_commission cfg,
             max_position_size = 0.25, min_cash_reserve = 0.1\<rparr>;
          all_signals =
            map (\<lambda>(ticker, df). (ticker, generate_signals (cfg_strategy cfg) df)) data_dict
      in case simulate portfolio_config all_signals of
           Inl e \<Rightarrow> Inl e
         | Inr portfolio \<Rightarrow> Inr (portfolio, all_signals))"

section \<open>The multi-instrument engine with the rounding of floats written out\<close>

text \<open>
  The methods of \<^verbatim>\<open>portfolio_manager.py\<close> and the loop of \<^verbatim>\<open>main.py\<close> once more, every
  float operation followed by the rounding \<open>fl\<close> of the float format; the conversion
  of an integer to a float is rounded too. With the identity for \<open>fl\<close> this is the
  engine above. \<^verbatim>\<open>sum\<close> adds the terms from the left, starting from the integer 0.
\<close>

definition get_portfolio_value_fl :: "(real \<Rightarrow> real) \<Rightarrow> PortfolioManager \<Rightarrow> prices \<Rightarrow> real" where
  "get_portfolio_value_fl fl pm prices =
     (let stock_value =
            foldl (\<lambda>acc item. fl (acc + item)) 0
              (map (\<lambda>stock. fl (fl (real_of_int (positions pm stock)) * prices_get prices stock))
                 (stocks pm))
      in fl (cash pm + stock_value))"

definition get_available_cash_for_stock_fl :: "(real \<Rightarrow> real) \<Rightarrow> PortfolioManager \<Rightarrow> prices \<Rightarrow> real" where
  "get_available_cash_for_stock_fl fl pm current_prices =
     (let current_portfolio_value = get_portfolio_value_fl fl pm current_prices;
          max_allocation = fl (current_portfolio_value * max_position_size (config pm));
          min_cash_needed = fl (current_portfolio_value * min_cash_reserve (config pm));
          available_cash = max 0 (fl (cash pm - min_cash_needed))
      in min available_cash max_allocation)"

definition can_buy_fl ::
  "(real \<Rightarrow> real) \<Rightarrow> PortfolioManager \<Rightarrow> string \<Rightarrow> real \<Rightarrow> prices \<Rightarrow> py_error + (bool \<times> int)" where
  "can_buy_fl fl pm stock price current_prices =
     (case positions_item pm stock of
        Inl e \<Rightarrow> Inl e
      | Inr held \<Rightarrow>
          if held > 0 then Inr (False, 0)
          else
            let available_cash = get_available_cash_for_stock_fl fl pm current_prices in
            if available_cash < price then Inr (False, 0)
            else
              (case np_div available_cash price of
                 Fin q \<Rightarrow> (let max_qty = py_int (fl q) in Inr (max_qty > 0, max_qty))
               | NaN \<Rightarrow> Inl ValueError
               | _ \<Rightarrow> Inl OverflowError))"

definition execute_buy_fl ::
  "(real \<Rightarrow> real) \<Rightarrow> PortfolioManager \<Rightarrow> string \<Rightarrow> real \<Rightarrow> date \<Rightarrow> prices \<Rightarrow>
     py_error + (bool \<times> PortfolioManager)" where
  "execute_buy_fl fl pm stock price date current_prices =
     (case can_buy_fl fl pm stock price current_prices of
        Inl e \<Rightarrow> Inl e
      | Inr (ok, max_qty) \<Rightarrow>
          if \<not> ok then Inr (False, pm)
          else
            let trade_value = fl (price * fl (real_of_int max_qty));
                commission_paid = fl (trade_value * commission (config pm));
                total_cost = fl (trade_value + commission_paid);
                cash' = fl (cash pm - total_cost)
            in Inr (True,
                 pm\<lparr>cash := cash',
                    positions := (positions pm)(stock := positions pm stock + max_qty),
                    trade_log := trade_log pm @
                      [\<lparr>t_date = date, t_stock = stock, t_type = BUY, t_price = price,
                        t_quantity = max_qty, t_value = trade_value,
                        t_commission = commission_paid, t_cash_after = cash'\<rparr>]\<rparr>))"

definition execute_sell_fl ::
  "(real \<Rightarrow> real) \<Rightarrow> PortfolioManager \<Rightarrow> string \<Rightarrow> real \<Rightarrow> date \<Rightarrow>
     py_error + (bool \<times> PortfolioManager)" where
  "execute_sell_fl fl pm stock price date =
     (case can_sell pm stock of
        Inl e \<Rightarrow> Inl e
      | Inr (ok, qty) \<Rightarrow>
          if \<not> ok then Inr (False, pm)
          else
            let trade_value = fl (price * fl (real_of_int qty));
                commission_paid = fl (trade_value * commission (config pm));
                total_received = fl (trade_value - commission_paid);
                cash' = fl (cash pm + total_received)
            in Inr (True,
                 pm\<lparr>cash := cash',
                    positions := (positions pm)(stock := 0),
                    trade_log := trade_log pm @
                      [\<lparr>t_date = date, t_stock = stock, t_type = SELL, t_price = price,
                        t_quantity = qty, t_value = trade_value,
                        t_commission = commission_paid, t_cash_after = cash'\<rparr>]\<rparr>))"

definition update_daily_value_fl ::
  "(real \<Rightarrow> real) \<Rightarrow> PortfolioManager \<Rightarrow> date \<Rightarrow> prices \<Rightarrow> PortfolioManager" where
  "update_daily_value_fl fl pm date prices =
     (let portfolio_value = get_portfolio_value_fl fl pm prices
      in pm\<lparr>daily_values := daily_values pm @
           [\<lparr>d_date = date, d_cash = cash pm,
             d_stock_value = fl (portfolio_value - cash pm),
             d_total_value = portfolio_value,
             d_positions = map (\<lambda>stock. (stock, positions pm stock)) (dict_keys (stocks pm))\<rparr>]\<rparr>)"

fun process_signals_fl ::
  "(real \<Rightarrow> real) \<Rightarrow> (string \<times> signal_row) list \<Rightarrow> date \<Rightarrow> prices \<Rightarrow> PortfolioManager \<Rightarrow>
     py_error + PortfolioManager" where
  "process_signals_fl fl [] date current_prices portfolio = Inr portfolio"
| "process_signals_fl fl ((ticker, signals) # rest) date current_prices portfolio =
     (let price = close signals in
      if buy signals then
        (case execute_buy_fl fl portfolio ticker price date current_prices of
           Inl e \<Rightarrow> Inl e
         | Inr (done, portfolio') \<Rightarrow> process_signals_fl fl rest date current_prices portfolio')
      else if sell signals then
        (case execute_sell_fl fl portfolio ticker price date of
           Inl e \<Rightarrow> Inl e
         | Inr (done, portfolio') \<Rightarrow> process_signals_fl fl rest date current_prices portfolio')
      else process_signals_fl fl rest date current_prices portfolio)"

definition simulate_day_fl ::
  "(real \<Rightarrow> real) \<Rightarrow> all_signals \<Rightarrow> PortfolioManager \<Rightarrow> date \<Rightarrow> py_error + PortfolioManager" where
  "simulate_day_fl fl sigs portfolio date =
     (if repeated_on sigs date then Inl ValueError
      else
        let current_prices = current_prices_on sigs date in
        case process_signals_fl fl (rows_on sigs date) date current_prices portfolio of
          Inl e \<Rightarrow> Inl e
        | Inr portfolio' \<Rightarrow>
            if current_prices \<noteq> []
            then Inr (update_daily_value_fl fl portfolio' date current_prices)
            else Inr portfolio')"

fun simulate_dates_fl ::
  "(real \<Rightarrow> real) \<Rightarrow> all_signals \<Rightarrow> date list \<Rightarrow> PortfolioManager \<Rightarrow> py_error + PortfolioManager" where
  "simulate_dates_fl fl sigs [] portfolio = Inr portfolio"
| "simulate_dates_fl fl sigs (date # dates) portfolio =
     (case simulate_day_fl fl sigs portfolio date of
        Inl e \<Rightarrow> Inl e
      | Inr portfolio' \<Rightarrow> simulate_dates_fl fl sigs dates portfolio')"

definition simulate_fl :: "(real \<Rightarrow> real) \<Rightarrow> PortfolioConfig \<Rightarrow> all_signals \<Rightarrow> py_error + PortfolioManager" where
  "simulate_fl fl cfg sigs =
     simulate_dates_fl fl sigs (all_dates sigs) (PortfolioManager_init cfg (map fst sigs))"

section \<open>The single-instrument engine: \<^verbatim>\<open>strategy/backtester.py\<close>\<close>

text \<open>
  \<^verbatim>\<open>round(x, n)\<close> on a float: to the nearest multiple of \<open>10\<^sup>-\<^sup>n\<close>, a tie going to the
  even one.
\<close>

definition round_half_even :: "real \<Rightarrow> int" where
  "round_half_even x =
     (let f = \<lfloor>x\<rfloor>; r = x - real_of_int f
      in if r < 1 / 2 then f else if 1 / 2 < r then f + 1 else if even f then f else f + 1)"

definition py_round :: "real \<Rightarrow> nat \<Rightarrow> real" where
  "py_round x n = real_of_int (round_half_even (x * 10 ^ n)) / 10 ^ n"

text \<open>
  A pandas DataFrame, as far as \<^verbatim>\<open>run\<close> reads or writes one: whether the index is of a
  datetime dtype, the index labels, and the columns \<^verbatim>\<open>close\<close>, \<^verbatim>\<open>buy\<close>, \<^verbatim>\<open>sell\<close>,
  \<^verbatim>\<open>qty\<close>, \<^verbatim>\<open>cash\<close> and \<^verbatim>\<open>equity\<close>. A column that the frame does not have is
  \<open>None\<close>; in a flag or float column a cell \<open>None\<close> is NaN. The \<^verbatim>\<open>close\<close> column
  holds floats without NaN. Other columns are never touched and are left out.
\<close>

record DataFrame =
  datetime_index :: bool
  df_index :: "date list"
  col_close :: "real list option"
  col_buy :: "bool option list option"
  col_sell :: "bool option list option"
  col_qty :: "int list option"
  col_cash :: "real option list option"
  col_equity :: "real option list option"

text \<open>
  Objects live in a store and are passed by reference, so that one frame given as both
  arguments of \<^verbatim>\<open>run\<close> is one object. The addresses in use are those below the length
  of the store, and a new object takes the next one.
\<close>

type_synonym ref = nat

type_synonym heap = "DataFrame list"

definition heap_new :: "heap \<Rightarrow> DataFrame \<Rightarrow> ref \<times> heap" where
  "heap_new h df = (length h, h @ [df])"

record Backtester =
  bt_initial_cash :: real
  bt_commission :: real
  bt_cash :: real
  bt_position :: int


text \<open>A row of \<^verbatim>\<open>executed_trades\<close>.\<close>

record execution =
  x_date :: date
  x_type :: side
  x_price :: real
  x_qty :: int
  x_cash :: real

text \<open>
  The one-row summary frame. In a float cell \<open>None\<close> is NaN; \<open>win_ratio_cell\<close> is
  \<open>None\<close> for the empty string.
\<close>

record summary =
  initial_cash_cell :: real
  final_nav_cell :: "real option"
  total_return_cell :: "real option"
  trades_cell :: nat
  win_ratio_cell :: "real option"

text \<open>
  \<^verbatim>\<open>signals.reindex(df.index, method="ffill")\<close> on one column. When the new index is
  the index of \<^verbatim>\<open>signals\<close> itself, pandas returns a copy (the model takes equal labels
  for an identical index). Otherwise a label of the new index takes the cell of the row
  before its place in the order of the signals index, whatever that cell holds, and NaN
  when there is no such row: on a strictly ascending index the last row whose label is
  not after it (\<open>pad_lookup\<close>), on a strictly descending index the last row whose
  label is not before it (\<open>pad_lookup_desc\<close>). pandas refuses every other index, one
  with a repeated label or one that is not monotonic, with a \<^verbatim>\<open>ValueError\<close>.
\<close>

fun pad_lookup :: "(date \<times> 'a) list \<Rightarrow> date \<Rightarrow> 'a option" where
  "pad_lookup [] d = None"
| "pad_lookup ((d', x) # rest) d =
     (if d < d' then None
      else case pad_lookup rest d of None \<Rightarrow> Some x | Some y \<Rightarrow> Some y)"

fun pad_lookup_desc :: "(date \<times> 'a) list \<Rightarrow> date \<Rightarrow> 'a option" where
  "pad_lookup_desc [] d = None"
| "pad_lookup_desc ((d', x) # rest) d =
     (if d' < d then None
      else case pad_lookup_desc rest d of None \<Rightarrow> Some x | Some y \<Rightarrow> Some y)"

definition reindex_ffill :: "date list \<Rightarrow> bool option list \<Rightarrow> date list \<Rightarrow> py_error + bool option list" where
  "reindex_ffill labels cells new_index =
     (if labels = new_index then Inr cells
      else if sorted_wrt (<) labels
      then Inr (map (\<lambda>d. case pad_lookup (zip labels cells) d of None \<Rightarrow> None | Some c \<Rightarrow> c) new_index)
      else if sorted_wrt (\<lambda>a b. b < a) labels
      then Inr (map (\<lambda>d. case pad_lookup_desc (zip labels cells) d of None \<Rightarrow> None | Some c \<Rightarrow> c) new_index)
      else Inl ValueError)"

text \<open>\<^verbatim>\<open>.fillna(False)\<close> and \<^verbatim>\<open>.astype(bool)\<close> on a flag column.\<close>

definition fillna_False :: "bool option list \<Rightarrow> bool list" where
  "fillna_False cells = map (\<lambda>c. case c of None \<Rightarrow> False | Some b \<Rightarrow> b) cells"

text \<open>
  Lines 59 to 61: the \<^verbatim>\<open>buy\<close> and \<^verbatim>\<open>sell\<close> columns of the working copy. The whole
  frame is reindexed first, so that a refused index is reported before a missing column.
\<close>

definition align_signals :: "DataFrame \<Rightarrow> date list \<Rightarrow> py_error + (bool list \<times> bool list)" where
  "align_signals signals new_index =
     (case col_buy signals of
        None \<Rightarrow>
          (case reindex_ffill (df_index signals) [] new_index of
             Inl e \<Rightarrow> Inl e
           | Inr cells \<Rightarrow> Inl KeyError)
      | Some buys \<Rightarrow>
          (case reindex_ffill (df_index signals) buys new_index of
             Inl e \<Rightarrow> Inl e
           | Inr sig_buy \<Rightarrow>
               (case col_sell signals of
                  None \<Rightarrow> Inl KeyError
                | Some sells \<Rightarrow>
                    (case reindex_ffill (df_index signals) sells new_index of
                       Inl e \<Rightarrow> Inl e
                     | Inr sig_sell \<Rightarrow> Inr (fillna_False sig_buy, fillna_False sig_sell)))))"

text \<open>\<^verbatim>\<open>_execute\<close>\<close>

definition execute ::
  "Backtester \<Rightarrow> execution list \<Rightarrow> date \<Rightarrow> side \<Rightarrow> real \<Rightarrow> int \<Rightarrow> Backtester \<times> execution list" where
  "execute bt book ts sd price qty =
     (let pv = price * real_of_int qty;
          sgn = (if sd = BUY then 1 else - 1) :: int;
          cash' = bt_cash bt - (real_of_int sgn * pv + bt_commission bt);
          bt' = bt\<lparr>bt_cash := cash', bt_position := bt_position bt + sgn * qty\<rparr>
      in (bt', book @ [\<lparr>x_date = ts, x_type = sd, x_price = py_round price 4, x_qty = qty,
                        x_cash = py_round cash' 4\<rparr>]))"

text \<open>
  The entry and exit decision of one row (lines 75 to 88). The floor division
  \<^verbatim>\<open>self._cash // px\<close> raises on a zero price.
\<close>

definition trade_row ::
  "Backtester \<Rightarrow> execution list \<Rightarrow> date \<Rightarrow> real \<Rightarrow> bool \<Rightarrow> bool \<Rightarrow> py_error + (Backtester \<times> execution list)" where
  "trade_row bt book ts px row_buy row_sell =
     (if row_buy \<and> bt_position bt = 0 then
        (if px = 0 then Inl ZeroDivisionError
         else
           let qty = \<lfloor>bt_cash bt / px\<rfloor>
           in if qty \<noteq> 0 then Inr (execute bt book ts BUY px qty) else Inr (bt, book))
      else if row_sell \<and> bt_position bt > 0 then
        Inr (execute bt book ts SELL px (bt_position bt))
      else Inr (bt, book))"

text \<open>\<^verbatim>\<open>df.at[ts, "equity"] = v\<close>: every row of label \<open>ts\<close> takes the value.\<close>

definition set_equity_at :: "DataFrame \<Rightarrow> date \<Rightarrow> real \<Rightarrow> DataFrame" where
  "set_equity_at df ts v =
     (let old = (case col_equity df of None \<Rightarrow> replicate (length (df_index df)) None | Some es \<Rightarrow> es)
      in df\<lparr>col_equity := Some (map (\<lambda>(d, e). if d = ts then Some v else e) (zip (df_index df) old))\<rparr>)"

text \<open>
  The loop over \<^verbatim>\<open>df.iterrows()\<close>, \<open>df\<close> being the address of the working copy. The
  result holds the exception, if one was raised, and the state reached.
\<close>

fun run_loop ::
  "ref \<Rightarrow> (date \<times> real \<times> bool \<times> bool) list \<Rightarrow> Backtester \<Rightarrow> execution list \<Rightarrow> heap \<Rightarrow>
     py_error option \<times> Backtester \<times> execution list \<times> heap" where
  "run_loop df [] bt book h = (None, bt, book, h)"
| "run_loop df ((ts, px, row_buy, row_sell) # rows) bt book h =
     (case trade_row bt book ts px row_buy row_sell of
        Inl e \<Rightarrow> (Some e, bt, book, h)
      | Inr (bt', book') \<Rightarrow>
          run_loop df rows bt' book'
            (h[df := set_equity_at (h ! df) ts
                       (bt_cash bt' + real_of_int (bt_position bt') * px)]))"

text \<open>\<^verbatim>\<open>Series.ffill()\<close> on the equity column.\<close>

fun ffill :: "real option \<Rightarrow> real option list \<Rightarrow> real option list" where
  "ffill prev [] = []"
| "ffill prev (None # rest) = prev # ffill prev rest"
| "ffill prev (Some v # rest) = Some v # ffill (Some v) rest"

text \<open>
  \<^verbatim>\<open>trades["price"].diff()\<close> is \<open>diff\<close> above. The comparison of the source,
  \<^verbatim>\<open>diff() > 0.0\<close>, is false on NaN.
\<close>

definition mean_bool :: "bool list \<Rightarrow> real" where
  "mean_bool bs = real (length (filter (\<lambda>b. b) bs)) / real (length bs)"

text \<open>Lines 133 to 135; \<open>None\<close> is \<^verbatim>\<open>np.nan\<close>.\<close>

definition win_ratio :: "execution list \<Rightarrow> real option" where
  "win_ratio trades =
     (if trades \<noteq> [] then
        Some (mean_bool
          (map (\<lambda>(is_sell, up). is_sell \<and> up)
             (zip (map (\<lambda>t. x_type t = SELL) trades)
                  (map (\<lambda>d. case d of None \<Rightarrow> False | Some v \<Rightarrow> v > 0) (diff (map x_price trades))))))
      else None)"

text \<open>
  \<^verbatim>\<open>_build_summary\<close>; \<open>pnl\<close> is the equity column of \<^verbatim>\<open>pnl_df\<close>. The quotient
  \<^verbatim>\<open>final_nav / self.initial_cash\<close> of two Python floats raises on a zero divisor.
\<close>

definition build_summary :: "Backtester \<Rightarrow> execution list \<Rightarrow> real option list \<Rightarrow> py_error + summary" where
  "build_summary bt trades pnl =
     (let final_nav = (if pnl = [] then Some (bt_initial_cash bt) else last pnl) in
      if bt_initial_cash bt = 0 then Inl ZeroDivisionError
      else
        let total_return = map_option (\<lambda>nav. (nav / bt_initial_cash bt - 1) * 100) final_nav
        in Inr \<lparr>initial_cash_cell = bt_initial_cash bt,
                final_nav_cell = map_option (\<lambda>v. py_round v 2) final_nav,
                total_return_cell = map_option (\<lambda>v. py_round v 2) total_return,
                trades_cell = length trades,
                win_ratio_cell = map_option (\<lambda>w. py_round w 2) (win_ratio trades)\<rparr>)"

text \<open>
  The rows that \<^verbatim>\<open>df.iterrows()\<close> yields, with the two flag columns set at lines 60
  and 61. \<^verbatim>\<open>row["close"]\<close> in the first iteration raises when the column is missing.
\<close>

definition iterrows :: "DataFrame \<Rightarrow> bool list \<Rightarrow> bool list \<Rightarrow> py_error + (date \<times> real \<times> bool \<times> bool) list" where
  "iterrows df buys sells =
     (case col_close df of
        None \<Rightarrow> (if df_index df = [] then Inr [] else Inl KeyError)
      | Some closes \<Rightarrow> Inr (zip (df_index df) (zip closes (zip buys sells))))"

text \<open>\<^verbatim>\<open>df.loc[:, ["equity"]]\<close>: a new frame with the one column.\<close>

definition loc_equity :: "DataFrame \<Rightarrow> DataFrame" where
  "loc_equity df =
     \<lparr>datetime_index = datetime_index df, df_index = df_index df, col_close = None,
      col_buy = None, col_sell = None, col_qty = None, col_cash = None,
      col_equity = col_equity df\<rparr>"

text \<open>
  The end of \<^verbatim>\<open>run\<close>, after the loop (lines 93 to 102): the second copy, the forward
  fill of its equity column, the frame \<^verbatim>\<open>pnl_df\<close> and the summary.
\<close>

definition finish_run ::
  "ref \<Rightarrow> Backtester \<Rightarrow> execution list \<Rightarrow> heap \<Rightarrow>
     (py_error + (execution list \<times> DataFrame \<times> summary)) \<times> Backtester \<times> heap" where
  "finish_run df bt executed_trades h =
     (let (df', h1) = heap_new h (h ! df);
          h2 = h1[df' := (h1 ! df')\<lparr>col_equity :=
                  map_option (ffill None) (col_equity (h1 ! df'))\<rparr>];
          pnl_df = loc_equity (h2 ! df');
          pnl = (case col_equity pnl_df of None \<Rightarrow> [] | Some es \<Rightarrow> es)
      in (case build_summary bt executed_trades pnl of
            Inl e \<Rightarrow> (Inl e, bt, h2)
          | Inr summary_df \<Rightarrow> (Inr (executed_trades, pnl_df, summary_df), bt, h2)))"

text \<open>
  \<^verbatim>\<open>Backtester.run\<close>. \<open>price_df\<close> and \<open>signals\<close> are the addresses of the two
  arguments in the store \<open>h\<close>. The result is the exception or the three returned frames,
  with the Backtester object and the store as the call leaves them. \<^verbatim>\<open>copy()\<close> makes a
  new object; \<^verbatim>\<open>reindex\<close>, \<^verbatim>\<open>fillna\<close> and \<^verbatim>\<open>astype\<close> return new objects and write
  to none.
\<close>

definition run ::
  "Backtester \<Rightarrow> heap \<Rightarrow> ref \<Rightarrow> ref \<Rightarrow>
     (py_error + (execution list \<times> DataFrame \<times> summary)) \<times> Backtester \<times> heap" where
  "run bt h price_df signals =
     (if \<not> datetime_index (h ! price_df) then (Inl ValueError, bt, h)
      else
        let (df, h1) = heap_new h (h ! price_df) in
        (case align_signals (h1 ! signals) (df_index (h1 ! df)) of
           Inl e \<Rightarrow> (Inl e, bt, h1)
         | Inr (buys, sells) \<Rightarrow>
             (let n = length (df_index (h1 ! df));
                  h2 = h1[df := (h1 ! df)\<lparr>col_buy := Some (map Some buys)\<rparr>];
                  h3 = h2[df := (h2 ! df)\<lparr>col_sell := Some (map Some sells)\<rparr>];
                  h4 = h3[df := (h3 ! df)\<lparr>col_qty := Some (replicate n 0)\<rparr>];
                  h5 = h4[df := (h4 ! df)\<lparr>col_cash := Some (replicate n None)\<rparr>];
                  h6 = h5[df := (h5 ! df)\<lparr>col_equity := Some (replicate n None)\<rparr>];
                  bt0 = bt\<lparr>bt_cash := bt_initial_cash bt, bt_position := 0\<rparr>
              in (case iterrows (h6 ! df) buys sells of
                    Inl e \<Rightarrow> (Inl e, bt0, h6)
                  | Inr rows \<Rightarrow>
                      (case run_loop df rows bt0 [] h6 of
                         (Some e, bt1, executed_trades, h7) \<Rightarrow> (Inl e, bt1, h7)
                       | (None, bt1, executed_trades, h7) \<Rightarrow>
                           finish_run df bt1 executed_trades h7)))))"

section \<open>Notions of the specification\<close>

text \<open>The cash allocator as the specification words it.\<close>

definition availableCash :: "real \<Rightarrow> real \<Rightarrow> real \<Rightarrow> real \<Rightarrow> real" where
  "availableCash portfolioValue cash_amount maxPositionFraction minReserveFraction =
     (let minCashNeeded = portfolioValue * minReserveFraction;
          maxAllocation = portfolioValue * maxPositionFraction
      in min (max 0 (cash_amount - minCashNeeded)) maxAllocation)"

text \<open>
  The drawdown as the specification words it: the running peak at a snapshot is the
  greatest total value up to and including it, the drawdown there is the fall from that
  peak in percent of the peak, and the metric is the greatest drawdown observed.
\<close>

definition running_peak :: "real list \<Rightarrow> nat \<Rightarrow> real" where
  "running_peak totals i = Max (set (take (Suc i) totals))"

definition drawdown_at :: "real list \<Rightarrow> nat \<Rightarrow> real" where
  "drawdown_at totals i = (running_peak totals i - totals ! i) / running_peak totals i * 100"

definition observed_drawdowns :: "real list \<Rightarrow> real list" where
  "observed_drawdowns totals = map (drawdown_at totals) [0..<length totals]"

text \<open>
  The sides of the trade records of one instrument, in the order of the log, and what the
  specification asks of them: they alternate from a first side on.
\<close>

definition stock_sides :: "PortfolioManager \<Rightarrow> string \<Rightarrow> side list" where
  "stock_sides pm stock = map t_type (filter (\<lambda>t. t_stock t = stock) (trade_log pm))"

fun other_side :: "side \<Rightarrow> side" where
  "other_side BUY = SELL"
| "other_side SELL = BUY"

fun alternates_from :: "side \<Rightarrow> side list \<Rightarrow> bool" where
  "alternates_from s [] = True"
| "alternates_from s (x # xs) = (x = s \<and> alternates_from (other_side s) xs)"

text \<open>
  No pyramiding, for one instrument: its records alternate BUY, SELL, ... from a BUY,
  its share count is not negative, and it is positive exactly when the last of its
  records is a BUY.
\<close>

definition no_pyramiding :: "PortfolioManager \<Rightarrow> string \<Rightarrow> bool" where
  "no_pyramiding pm stock =
     (alternates_from BUY (stock_sides pm stock) \<and> 0 \<le> positions pm stock \<and>
      (0 < positions pm stock \<longleftrightarrow>
         stock_sides pm stock \<noteq> [] \<and> last (stock_sides pm stock) = BUY))"

text \<open>The share counts copied into the daily snapshots are not negative.\<close>

definition snapshots_nonnegative :: "PortfolioManager \<Rightarrow> bool" where
  "snapshots_nonnegative pm =
     list_all (\<lambda>d. list_all (\<lambda>(stock, shares). 0 \<le> shares) (d_positions d)) (daily_values pm)"

text \<open>A condition on the price data: every close is positive.\<close>

definition positive_prices :: "all_signals \<Rightarrow> bool" where
  "positive_prices sigs = list_all (\<lambda>(ticker, df). list_all (\<lambda>(d, row). 0 < close row) df) sigs"

text \<open>The valid configurations of the specification.\<close>

definition valid_config :: "PortfolioConfig \<Rightarrow> bool" where
  "valid_config cfg =
     (0 < initial_cash cfg \<and> 0 < max_position_size cfg \<and> max_position_size cfg \<le> 1 \<and>
      0 \<le> min_cash_reserve cfg \<and> min_cash_reserve cfg < 1 \<and> 0 \<le> commission cfg)"

text \<open>
  The cash is not negative now, in any trade record and in any daily snapshot.
\<close>

definition cash_nonnegative :: "PortfolioManager \<Rightarrow> bool" where
  "cash_nonnegative pm =
     (0 \<le> cash pm \<and> list_all (\<lambda>t. 0 \<le> t_cash_after t) (trade_log pm) \<and>
      list_all (\<lambda>d. 0 \<le> d_cash d) (daily_values pm))"

text \<open>
  A rounding to a float format of unit roundoff \<open>u\<close>, without overflow or underflow:
  it is monotone, it leaves a float as it is, and its relative error is at most \<open>u\<close>.
\<close>

definition rounding :: "(real \<Rightarrow> real) \<Rightarrow> real \<Rightarrow> bool" where
  "rounding fl u =
     (0 \<le> u \<and> u < 1 \<and> (\<forall>x y. x \<le> y \<longrightarrow> fl x \<le> fl y) \<and> (\<forall>x. fl (fl x) = fl x) \<and>
      (\<forall>x. \<bar>fl x - x\<bar> \<le> u * \<bar>x\<bar>))"

text \<open>
  The commission of a BUY is covered by the cash that the sizing leaves aside: by the
  reserve, the position being capped at the fraction \<open>m\<close> of the portfolio value, or by
  the share \<open>r\<close> of the cash that no order may use. With exact arithmetic (\<open>u = 0\<close>)
  the two conditions are \<open>c * m \<le> r\<close> and \<open>(1 + c) * (1 - r) \<le> 1\<close>.
\<close>

definition commission_covered :: "real \<Rightarrow> PortfolioConfig \<Rightarrow> bool" where
  "commission_covered u cfg =
     (let c = commission cfg; m = max_position_size cfg; r = min_cash_reserve cfg
      in (1 + u) ^ 6 * c * m + (1 + u) ^ 5 - 1 \<le> (1 + u) ^ 5 * (1 - u) * r
         \<or> (1 + u) ^ 5 * (1 + (1 + u) * c) * (1 - (1 - u) * r) \<le> 1)"

text \<open>
  The state in which the engine can always pay: the cash is a float and is nowhere
  negative, no share count is negative and the configuration is \<open>cfg\<close>.
\<close>

definition solvent :: "(real \<Rightarrow> real) \<Rightarrow> PortfolioConfig \<Rightarrow> PortfolioManager \<Rightarrow> bool" where
  "solvent fl cfg pm =
     (cash_nonnegative pm \<and> (\<forall>s. 0 \<le> positions pm s) \<and> config pm = cfg \<and>
      fl (cash pm) = cash pm)"


text \<open>
  The latest row of an index at or before a date: the row \<open>i\<close> is dated at or before
  \<open>d\<close>, and no row dated at or before \<open>d\<close> is dated after it.
\<close>

definition latest_row :: "date list \<Rightarrow> date \<Rightarrow> nat \<Rightarrow> bool" where
  "latest_row labels d i =
     (i < length labels \<and> labels ! i \<le> d \<and> (\<forall>d' \<in> set labels. d' \<le> d \<longrightarrow> d' \<le> labels ! i))"

text \<open>
  The win ratio as the specification words it: the SELL trades whose price exceeds the
  price of the trade record just before them, counted, over the number of SELL trades.
\<close>

fun winning_sells :: "execution list \<Rightarrow> nat" where
  "winning_sells (a # b # rest) =
     (if x_type b = SELL \<and> x_price a < x_price b then 1 else 0) + winning_sells (b # rest)"
| "winning_sells [a] = 0"
| "winning_sells [] = 0"

definition sell_count :: "execution list \<Rightarrow> nat" where
  "sell_count trades = length (filter (\<lambda>t. x_type t = SELL) trades)"

definition spec_win_ratio :: "execution list \<Rightarrow> real" where
  "spec_win_ratio trades = real (winning_sells trades) / real (sell_count trades)"

section \<open>Concrete portfolios and runs\<close>

definition default_config :: PortfolioConfig where
  "default_config =
     \<lparr>initial_cash = 1000, commission = 0.0005, max_position_size = 0.25,
      min_cash_reserve = 0.1\<rparr>"

definition fresh_manager :: PortfolioManager where
  "fresh_manager = PortfolioManager_init default_config [''A'']"

definition bought_manager :: PortfolioManager where
  "bought_manager =
     \<lparr>config = default_config, stocks = [''A''], cash = 799.9,
      positions = (\<lambda>stock. 0)(''A'' := 2),
      trade_log = [\<lparr>t_date = 1, t_stock = ''A'', t_type = BUY, t_price = 100, t_quantity = 2,
                     t_value = 200, t_commission = 0.1, t_cash_after = 799.9\<rparr>],
      daily_values = []\<rparr>"

definition sold_manager :: PortfolioManager where
  "sold_manager =
     \<lparr>config = default_config, stocks = [''A''], cash = 1019.79,
      positions = (\<lambda>stock. 0),
      trade_log = [\<lparr>t_date = 1, t_stock = ''A'', t_type = BUY, t_price = 100, t_quantity = 2,
                     t_value = 200, t_commission = 0.1, t_cash_after = 799.9\<rparr>,
                   \<lparr>t_date = 2, t_stock = ''A'', t_type = SELL, t_price = 110, t_quantity = 2,
                     t_value = 220, t_commission = 0.11, t_cash_after = 1019.79\<rparr>],
      daily_values = []\<rparr>"

text \<open>A manager that holds ten shares and little cash.\<close>

definition held_manager :: PortfolioManager where
  "held_manager =
     \<lparr>config = default_config, stocks = [''A''], cash = 50,
      positions = (\<lambda>stock. 0)(''A'' := 10), trade_log = [], daily_values = []\<rparr>"

text \<open>A manager built with a negative \<^verbatim>\<open>initial_cash\<close>.\<close>

definition overdrawn_manager :: PortfolioManager where
  "overdrawn_manager =
     PortfolioManager_init
       \<lparr>initial_cash = - 1000, commission = 0, max_position_size = 0.25,
        min_cash_reserve = 0.1\<rparr> []"

text \<open>
  A configuration file whose strategy thresholds overlap (buy below an RSI of 60, sell
  above an RSI of 40, over a period of 2 days), and one instrument whose close
  alternates between 100 and 102.
\<close>

definition overlapping_cfg :: configuration where
  "overlapping_cfg =
     \<lparr>cfg_initial_cash = 1000, cfg_commission = 0,
      cfg_strategy = \<lparr>rsi_period = 2, fast_ma = 2, slow_ma = 3, buy_rsi = 60, sell_rsi = 40\<rparr>\<rparr>"

definition zigzag_data :: "(string \<times> price_frame) list" where
  "zigzag_data = [(''A'', [(1, 100), (2, 102), (3, 100), (4, 102), (5, 100)])]"

text \<open>One instrument bought on day 1 and sold on day 2, and the state its run ends in.\<close>

definition round_trip_signals :: all_signals where
  "round_trip_signals =
     [(''A'', [(1, \<lparr>close = 100, buy = True, sell = False\<rparr>),
              (2, \<lparr>close = 110, buy = False, sell = True\<rparr>)])]"

definition round_trip_manager :: PortfolioManager where
  "round_trip_manager =
     \<lparr>config = default_config, stocks = [''A''], cash = 1019.79,
      positions = (\<lambda>stock. 0),
      trade_log = [\<lparr>t_date = 1, t_stock = ''A'', t_type = BUY, t_price = 100, t_quantity = 2,
                     t_value = 200, t_commission = 0.1, t_cash_after = 799.9\<rparr>,
                   \<lparr>t_date = 2, t_stock = ''A'', t_type = SELL, t_price = 110, t_quantity = 2,
                     t_value = 220, t_commission = 0.11, t_cash_after = 1019.79\<rparr>],
      daily_values = [\<lparr>d_date = 1, d_cash = 799.9, d_stock_value = 200, d_total_value = 999.9,
                        d_positions = [(''A'', 2)]\<rparr>,
                      \<lparr>d_date = 2, d_cash = 1019.79, d_stock_value = 0, d_total_value = 1019.79,
                        d_positions = [(''A'', 0)]\<rparr>]\<rparr>"

text \<open>
  A valid configuration without reserve: the whole cash may go into one position.
\<close>

definition no_reserve_config :: PortfolioConfig where
  "no_reserve_config =
     \<lparr>initial_cash = 1000, commission = 0.0005, max_position_size = 1, min_cash_reserve = 0\<rparr>"

definition one_buy_signals :: all_signals where
  "one_buy_signals = [(''A'', [(1, \<lparr>close = 100, buy = True, sell = False\<rparr>)])]"

text \<open>A manager whose two snapshots have a total value of 0.\<close>

definition worthless_manager :: PortfolioManager where
  "worthless_manager =
     \<lparr>config = default_config, stocks = [''A''], cash = 0,
      positions = (\<lambda>stock. 0), trade_log = [],
      daily_values = [\<lparr>d_date = 1, d_cash = 0, d_stock_value = 0, d_total_value = 0,
                        d_positions = [(''A'', 0)]\<rparr>,
                      \<lparr>d_date = 2, d_cash = 0, d_stock_value = 0, d_total_value = 0,
                        d_positions = [(''A'', 0)]\<rparr>]\<rparr>"

text \<open>A manager whose total value fell from 1000 to 900.\<close>

definition falling_manager :: PortfolioManager where
  "falling_manager =
     \<lparr>config = default_config, stocks = [''A''], cash = 0,
      positions = (\<lambda>stock. 0)(''A'' := 10), trade_log = [],
      daily_values = [\<lparr>d_date = 1, d_cash = 0, d_stock_value = 1000, d_total_value = 1000,
                        d_positions = [(''A'', 10)]\<rparr>,
                      \<lparr>d_date = 2, d_cash = 0, d_stock_value = 900, d_total_value = 900,
                        d_positions = [(''A'', 10)]\<rparr>]\<rparr>"



text \<open>A Backtester with a cash of 1000 and no commission, and two frames for it.\<close>

definition plain_backtester :: Backtester where
  "plain_backtester = \<lparr>bt_initial_cash = 1000, bt_commission = 0, bt_cash = 0, bt_position = 0\<rparr>"

definition three_day_prices :: DataFrame where
  "three_day_prices =
     \<lparr>datetime_index = True, df_index = [1, 2, 3], col_close = Some [2000, 100, 110],
      col_buy = None, col_sell = None, col_qty = None, col_cash = None, col_equity = None\<rparr>"

text \<open>Signals on days 1 and 3 only: no row on day 2.\<close>

definition gapped_signals :: DataFrame where
  "gapped_signals =
     \<lparr>datetime_index = True, df_index = [1, 3], col_close = None,
      col_buy = Some [Some True, Some False], col_sell = Some [Some False, Some True],
      col_qty = None, col_cash = None, col_equity = None\<rparr>"

text \<open>Signals dated in descending order: a buy flag on day 3, none on day 1.\<close>

definition descending_signals :: DataFrame where
  "descending_signals =
     \<lparr>datetime_index = True, df_index = [3, 1], col_close = None,
      col_buy = Some [Some True, Some False], col_sell = Some [Some False, Some False],
      col_qty = None, col_cash = None, col_equity = None\<rparr>"

text \<open>The two executions of the run on the signals of the days 1 and 3.\<close>

definition two_trades :: "execution list" where
  "two_trades =
     [\<lparr>x_date = 2, x_type = BUY, x_price = 100, x_qty = 10, x_cash = 0\<rparr>,
      \<lparr>x_date = 3, x_type = SELL, x_price = 110, x_qty = 10, x_cash = 1100\<rparr>]"

text \<open>
  One frame that holds the prices and the flags, as a caller passes who gives the same
  object for both arguments; and signals whose only cell on day 1 is NaN.
\<close>

definition combined_frame :: DataFrame where
  "combined_frame =
     \<lparr>datetime_index = True, df_index = [1, 2], col_close = Some [100, 110],
      col_buy = Some [Some True, Some True], col_sell = Some [Some False, Some True],
      col_qty = None, col_cash = None, col_equity = None\<rparr>"

definition nan_signals :: DataFrame where
  "nan_signals =
     \<lparr>datetime_index = True, df_index = [2], col_close = None,
      col_buy = Some [None], col_sell = Some [None],
      col_qty = None, col_cash = None, col_equity = None\<rparr>"

text \<open>A log of three executions, and the summary built from it.\<close>

definition three_trades :: "execution list" where
  "three_trades =
     [\<lparr>x_date = 2, x_type = BUY, x_price = 100, x_qty = 10, x_cash = 0\<rparr>,
      \<lparr>x_date = 3, x_type = SELL, x_price = 110, x_qty = 10, x_cash = 1100\<rparr>,
      \<lparr>x_date = 4, x_type = BUY, x_price = 105, x_qty = 10, x_cash = 50\<rparr>]"

definition three_trades_summary :: summary where
  "three_trades_summary =
     \<lparr>initial_cash_cell = 1000, final_nav_cell = Some 1100, total_return_cell = Some 10,
      trades_cell = 3, win_ratio_cell = Some 0.33\<rparr>"

text \<open>
  A configuration file with a negative cash, and signals with a buy flag on each of the
  three days of prices.
\<close>

definition overdrawn_cfg :: configuration where
  "overdrawn_cfg =
     \<lparr>cfg_initial_cash = - 1000, cfg_commission = 0,
      cfg_strategy = \<lparr>rsi_period = 2, fast_ma = 2, slow_ma = 3, buy_rsi = 60, sell_rsi = 40\<rparr>\<rparr>"


section \<open>What one order and one run preserve\<close>

lemma execute_buy_cases:
  assumes "execute_buy pm stock price date current_prices = Inr (ok, pm')"
  shows "(\<not> ok \<and> pm' = pm) \<or>
         (ok \<and> stock \<in> set (stocks pm) \<and> positions pm stock \<le> 0 \<and> price \<noteq> 0 \<and>
          price \<le> get_available_cash_for_stock pm current_prices \<and>
          0 < py_int (get_available_cash_for_stock pm current_prices / price) \<and>
          pm' = pm\<lparr>cash := cash pm - (price * real_of_int (py_int (get_available_cash_for_stock pm current_prices / price))
                      + price * real_of_int (py_int (get_available_cash_for_stock pm current_prices / price)) * commission (config pm)),
                    positions := (positions pm)(stock := positions pm stock + py_int (get_available_cash_for_stock pm current_prices / price)),
                    trade_log := trade_log pm @
                      [\<lparr>t_date = date, t_stock = stock, t_type = BUY, t_price = price,
                        t_quantity = py_int (get_available_cash_for_stock pm current_prices / price),
                        t_value = price * real_of_int (py_int (get_available_cash_for_stock pm current_prices / price)),
                        t_commission = price * real_of_int (py_int (get_available_cash_for_stock pm current_prices / price)) * commission (config pm),
                        t_cash_after = cash pm - (price * real_of_int (py_int (get_available_cash_for_stock pm current_prices / price))
                      + price * real_of_int (py_int (get_available_cash_for_stock pm current_prices / price)) * commission (config pm))\<rparr>]\<rparr>)"
  using assms
  by (auto simp: execute_buy_def can_buy_def positions_item_def np_div_def Let_def
           split: sum.splits if_splits prod.splits np_float.splits)

lemma execute_sell_cases:
  assumes "execute_sell pm stock price date = Inr (ok, pm')"
  shows "(\<not> ok \<and> pm' = pm) \<or>
         (ok \<and> stock \<in> set (stocks pm) \<and> 0 < positions pm stock \<and>
          pm' = pm\<lparr>cash := cash pm + (price * real_of_int (positions pm stock)
                      - price * real_of_int (positions pm stock) * commission (config pm)),
                    positions := (positions pm)(stock := 0),
                    trade_log := trade_log pm @
                      [\<lparr>t_date = date, t_stock = stock, t_type = SELL, t_price = price,
                        t_quantity = positions pm stock,
                        t_value = price * real_of_int (positions pm stock),
                        t_commission = price * real_of_int (positions pm stock) * commission (config pm),
                        t_cash_after = cash pm + (price * real_of_int (positions pm stock)
                      - price * real_of_int (positions pm stock) * commission (config pm))\<rparr>]\<rparr>)"
  using assms
  by (auto simp: execute_sell_def can_sell_def positions_item_def Let_def
           split: sum.splits if_splits prod.splits)

lemma process_signals_invariant:
  assumes buy_step: "\<And>pm ticker row ok pm'. P pm \<Longrightarrow> (ticker, row) \<in> set rows \<Longrightarrow>
            execute_buy pm ticker (close row) date current_prices = Inr (ok, pm') \<Longrightarrow> P pm'"
    and sell_step: "\<And>pm ticker row ok pm'. P pm \<Longrightarrow> (ticker, row) \<in> set rows \<Longrightarrow>
            execute_sell pm ticker (close row) date = Inr (ok, pm') \<Longrightarrow> P pm'"
    and "P portfolio"
    and "process_signals rows date current_prices portfolio = Inr portfolio'"
  shows "P portfolio'"
  using assms
proof (induction rows arbitrary: portfolio)
  case Nil
  then show ?case by simp
next
  case (Cons a rows)
  obtain ticker row where a: "a = (ticker, row)" by (cases a)
  have IH: "\<And>pm. P pm \<Longrightarrow> process_signals rows date current_prices pm = Inr portfolio' \<Longrightarrow> P portfolio'"
    using Cons.IH Cons.prems(1,2) by (metis list.set_intros(2))
  show ?case
  proof (cases "buy row")
    case True
    with Cons.prems(4) a obtain ok pm1 where
      e: "execute_buy portfolio ticker (close row) date current_prices = Inr (ok, pm1)"
      and r: "process_signals rows date current_prices pm1 = Inr portfolio'"
      by (auto simp: Let_def split: sum.splits prod.splits)
    have "P pm1" using Cons.prems(1)[OF Cons.prems(3) _ e] a by simp
    then show ?thesis using IH r by blast
  next
    case False
    show ?thesis
    proof (cases "sell row")
      case True
      with False Cons.prems(4) a obtain ok pm1 where
        e: "execute_sell portfolio ticker (close row) date = Inr (ok, pm1)"
        and r: "process_signals rows date current_prices pm1 = Inr portfolio'"
        by (auto simp: Let_def split: sum.splits prod.splits)
      have "P pm1" using Cons.prems(2)[OF Cons.prems(3) _ e] a by simp
      then show ?thesis using IH r by blast
    next
      case nosell: False
      with False Cons.prems(4) a have "process_signals rows date current_prices portfolio = Inr portfolio'"
        by (simp add: Let_def)
      then show ?thesis using IH Cons.prems(3) by blast
    qed
  qed
qed

lemma simulate_dates_invariant:
  assumes buy_step: "\<And>pm date ticker row ok pm'. P pm \<Longrightarrow> (ticker, row) \<in> set (rows_on sigs date) \<Longrightarrow>
            execute_buy pm ticker (close row) date (current_prices_on sigs date) = Inr (ok, pm') \<Longrightarrow> P pm'"
    and sell_step: "\<And>pm date ticker row ok pm'. P pm \<Longrightarrow> (ticker, row) \<in> set (rows_on sigs date) \<Longrightarrow>
            execute_sell pm ticker (close row) date = Inr (ok, pm') \<Longrightarrow> P pm'"
    and snapshot_step: "\<And>pm date. P pm \<Longrightarrow> P (update_daily_value pm date (current_prices_on sigs date))"
    and "P portfolio"
    and "simulate_dates sigs dates portfolio = Inr portfolio'"
  shows "P portfolio'"
  using assms(4,5)
proof (induction dates arbitrary: portfolio)
  case Nil
  then show ?case by simp
next
  case (Cons date dates)
  from Cons.prems(2) obtain pm1 where
    d: "simulate_day sigs portfolio date = Inr pm1"
    and r: "simulate_dates sigs dates pm1 = Inr portfolio'"
    by (auto split: sum.splits)
  from d obtain pm2 where
    p: "process_signals (rows_on sigs date) date (current_prices_on sigs date) portfolio = Inr pm2"
    and u: "pm1 = update_daily_value pm2 date (current_prices_on sigs date) \<or> pm1 = pm2"
    by (auto simp: simulate_day_def Let_def split: sum.splits if_splits)
  have "P pm2"
    by (rule process_signals_invariant[where P = P, OF _ _ Cons.prems(1) p])
       (use buy_step sell_step in blast)+
  then have "P pm1" using u snapshot_step by auto
  then show ?case using Cons.IH r by blast
qed

lemma alternates_from_snoc:
  "alternates_from s (xs @ [x]) =
     (alternates_from s xs \<and> x = (if even (length xs) then s else other_side s))"
proof (induction xs arbitrary: s)
  case Nil
  then show ?case by auto
next
  case (Cons a xs)
  then show ?case by (cases s) auto
qed

lemma alternates_from_last:
  "alternates_from s xs \<Longrightarrow> xs \<noteq> [] \<Longrightarrow> last xs = (if even (length xs) then other_side s else s)"
proof (induction xs arbitrary: s)
  case Nil
  then show ?case by simp
next
  case (Cons a xs)
  then show ?case by (cases s; cases xs) auto
qed

lemma stock_sides_snoc:
  "stock_sides (pm\<lparr>cash := c, positions := p, trade_log := trade_log pm @ [t]\<rparr>) s =
     (if t_stock t = s then stock_sides pm s @ [t_type t] else stock_sides pm s)"
  by (simp add: stock_sides_def)

lemma no_pyramiding_buy:
  assumes "\<forall>s. no_pyramiding pm s"
    and "execute_buy pm stock price date current_prices = Inr (ok, pm')"
  shows "no_pyramiding pm' s"
proof -
  from execute_buy_cases[OF assms(2)] show ?thesis
  proof (elim disjE conjE)
    assume "pm' = pm" then show ?thesis using assms(1) by simp
  next
    let ?q = "py_int (get_available_cash_for_stock pm current_prices / price)"
    assume q: "0 < ?q" and flat: "positions pm stock \<le> 0"
      and pm': "pm' = pm\<lparr>cash := cash pm - (price * real_of_int ?q + price * real_of_int ?q * commission (config pm)),
                    positions := (positions pm)(stock := positions pm stock + ?q),
                    trade_log := trade_log pm @
                      [\<lparr>t_date = date, t_stock = stock, t_type = BUY, t_price = price,
                        t_quantity = ?q, t_value = price * real_of_int ?q,
                        t_commission = price * real_of_int ?q * commission (config pm),
                        t_cash_after = cash pm - (price * real_of_int ?q + price * real_of_int ?q * commission (config pm))\<rparr>]\<rparr>"
    have old: "no_pyramiding pm s" and olds: "no_pyramiding pm stock" using assms(1) by auto
    show ?thesis
    proof (cases "s = stock")
      case False
      then show ?thesis using old unfolding pm' no_pyramiding_def
        by (simp add: stock_sides_snoc)
    next
      case True
      from olds flat have z: "positions pm stock = 0"
        and nl: "\<not> (stock_sides pm stock \<noteq> [] \<and> last (stock_sides pm stock) = BUY)"
        and alt: "alternates_from BUY (stock_sides pm stock)"
        unfolding no_pyramiding_def by auto
      have ev: "even (length (stock_sides pm stock))"
      proof (cases "stock_sides pm stock = []")
        case True then show ?thesis by simp
      next
        case False
        with alternates_from_last[OF alt False] nl show ?thesis by (auto split: if_splits)
      qed
      show ?thesis using True z q alt ev unfolding pm' no_pyramiding_def
        by (simp add: stock_sides_snoc alternates_from_snoc)
    qed
  qed
qed

lemma no_pyramiding_sell:
  assumes "\<forall>s. no_pyramiding pm s"
    and "execute_sell pm stock price date = Inr (ok, pm')"
  shows "no_pyramiding pm' s"
proof -
  from execute_sell_cases[OF assms(2)] show ?thesis
  proof (elim disjE conjE)
    assume "pm' = pm" then show ?thesis using assms(1) by simp
  next
    assume long: "0 < positions pm stock"
      and pm': "pm' = pm\<lparr>cash := cash pm + (price * real_of_int (positions pm stock)
                      - price * real_of_int (positions pm stock) * commission (config pm)),
                    positions := (positions pm)(stock := 0),
                    trade_log := trade_log pm @
                      [\<lparr>t_date = date, t_stock = stock, t_type = SELL, t_price = price,
                        t_quantity = positions pm stock,
                        t_value = price * real_of_int (positions pm stock),
                        t_commission = price * real_of_int (positions pm stock) * commission (config pm),
                        t_cash_after = cash pm + (price * real_of_int (positions pm stock)
                      - price * real_of_int (positions pm stock) * commission (config pm))\<rparr>]\<rparr>"
    have old: "no_pyramiding pm s" and olds: "no_pyramiding pm stock" using assms(1) by auto
    show ?thesis
    proof (cases "s = stock")
      case False
      then show ?thesis using old unfolding pm' no_pyramiding_def
        by (simp add: stock_sides_snoc)
    next
      case True
      from olds long have ne: "stock_sides pm stock \<noteq> []" and l: "last (stock_sides pm stock) = BUY"
        and alt: "alternates_from BUY (stock_sides pm stock)"
        unfolding no_pyramiding_def by auto
      have od: "odd (length (stock_sides pm stock))"
        using alternates_from_last[OF alt ne] l by (auto split: if_splits)
      show ?thesis using True alt od unfolding pm' no_pyramiding_def
        by (simp add: stock_sides_snoc alternates_from_snoc)
    qed
  qed
qed

lemma no_pyramiding_snapshot:
  "no_pyramiding (update_daily_value pm date prices) s = no_pyramiding pm s"
  by (simp add: update_daily_value_def no_pyramiding_def stock_sides_def Let_def)

lemma snapshots_nonnegative_buy:
  "execute_buy pm stock price date current_prices = Inr (ok, pm') \<Longrightarrow>
   snapshots_nonnegative pm' = snapshots_nonnegative pm"
  by (drule execute_buy_cases) (auto simp: snapshots_nonnegative_def)

lemma snapshots_nonnegative_sell:
  "execute_sell pm stock price date = Inr (ok, pm') \<Longrightarrow>
   snapshots_nonnegative pm' = snapshots_nonnegative pm"
  by (drule execute_sell_cases) (auto simp: snapshots_nonnegative_def)

lemma snapshots_nonnegative_snapshot:
  "\<forall>s. 0 \<le> positions pm s \<Longrightarrow> snapshots_nonnegative pm \<Longrightarrow>
   snapshots_nonnegative (update_daily_value pm date prices)"
  by (simp add: update_daily_value_def snapshots_nonnegative_def Let_def list_all_iff)


lemma rows_on_member:
  "(ticker, row) \<in> set (rows_on sigs date) \<Longrightarrow>
     \<exists>df. (ticker, df) \<in> set sigs \<and> (date, row) \<in> set df"
proof (induction sigs)
  case Nil
  then show ?case by simp
next
  case (Cons a sigs)
  obtain t df where a: "a = (t, df)" by (cases a)
  show ?case using Cons a
    by (auto split: option.splits dest: map_of_SomeD)
qed



lemma positive_prices_rows_on:
  "positive_prices sigs \<Longrightarrow> (ticker, row) \<in> set (rows_on sigs date) \<Longrightarrow> 0 < close row"
  by (drule rows_on_member) (force simp: positive_prices_def list_all_iff)

lemma positive_prices_current:
  "positive_prices sigs \<Longrightarrow> (ticker, p) \<in> set (current_prices_on sigs date) \<Longrightarrow> 0 < p"
  by (auto simp: current_prices_on_def dest: positive_prices_rows_on)

lemma prices_get_nonneg:
  "\<forall>(ticker, p) \<in> set prices. 0 < p \<Longrightarrow> 0 \<le> prices_get prices stock"
  by (auto simp: prices_get_def split: option.splits dest!: map_of_SomeD)

lemmas engine_defs = simulate_def all_dates_def PortfolioManager_init_def simulate_day_def
  dict_keys_def
  current_prices_on_def execute_buy_def can_buy_def positions_item_def
  get_available_cash_for_stock_def get_portfolio_value_def prices_get_def py_int_def
  np_div_def repeated_on_def
  update_daily_value_def execute_sell_def can_sell_def Let_def

lemma round_trip_run: "simulate default_config round_trip_signals = Inr round_trip_manager"
  by (simp add: engine_defs default_config_def round_trip_signals_def round_trip_manager_def
      fun_upd_idem)

lemma round_trip_run_dates:
  "simulate_dates round_trip_signals [1, 2] (PortfolioManager_init default_config [''A''])
     = Inr round_trip_manager"
  by (simp add: engine_defs default_config_def round_trip_signals_def round_trip_manager_def
      fun_upd_idem)


section \<open>What the single-instrument loop preserves\<close>

lemma trade_row_book:
  assumes "trade_row bt book ts px row_buy row_sell = Inr (bt', book')"
  shows "book' = book \<or>
         (\<exists>t. book' = book @ [t] \<and> x_date t = ts \<and>
              (x_type t = BUY \<longrightarrow> row_buy) \<and> (x_type t = SELL \<longrightarrow> row_sell))"
  using assms
  by (auto simp: trade_row_def execute_def Let_def split: if_splits)

lemma run_loop_book:
  assumes "run_loop df rows bt book h = (e, bt', book', h')" and "t \<in> set book'"
  shows "t \<in> set book \<or>
         (\<exists>px row_buy row_sell. (x_date t, px, row_buy, row_sell) \<in> set rows \<and>
              (x_type t = BUY \<longrightarrow> row_buy) \<and> (x_type t = SELL \<longrightarrow> row_sell))"
  using assms
proof (induction rows arbitrary: bt book h)
  case Nil
  then show ?case by simp
next
  case (Cons row rows)
  obtain ts px b s where row: "row = (ts, px, b, s)" by (cases row) auto
  show ?case
  proof (cases "trade_row bt book ts px b s")
    case (Inl err)
    with Cons.prems row show ?thesis by simp
  next
    case (Inr res)
    obtain bt1 book1 where res: "res = (bt1, book1)" by (cases res)
    from Cons.prems(1) row Inr res have
      "run_loop df rows bt1 book1
         (h[df := set_equity_at (h ! df) ts (bt_cash bt1 + real_of_int (bt_position bt1) * px)])
       = (e, bt', book', h')" by simp
    from Cons.IH[OF this Cons.prems(2)]
    consider "t \<in> set book1"
      | "\<exists>px row_buy row_sell. (x_date t, px, row_buy, row_sell) \<in> set rows \<and>
              (x_type t = BUY \<longrightarrow> row_buy) \<and> (x_type t = SELL \<longrightarrow> row_sell)"
      by blast
    then show ?thesis
    proof cases
      case 1
      from trade_row_book[OF Inr[unfolded res]]
      consider "book1 = book"
        | t' where "book1 = book @ [t']" "x_date t' = ts"
            "x_type t' = BUY \<longrightarrow> b" "x_type t' = SELL \<longrightarrow> s"
        by blast
      then show ?thesis
      proof cases
        case 1
        with \<open>t \<in> set book1\<close> show ?thesis by simp
      next
        case 2
        show ?thesis
        proof (cases "t = t'")
          case True
          with 2 row have "(x_date t, px, b, s) \<in> set (row # rows)"
            "x_type t = BUY \<longrightarrow> b" "x_type t = SELL \<longrightarrow> s" by auto
          then show ?thesis by blast
        next
          case False
          with 2 \<open>t \<in> set book1\<close> show ?thesis by simp
        qed
      qed
    next
      case 2
      then show ?thesis by auto
    qed
  qed
qed

lemma run_loop_heap:
  assumes "run_loop df rows bt book h = (e, bt', book', h')" and "n \<le> df"
  shows "take n h' = take n h"
  using assms(1)
proof (induction rows arbitrary: bt book h)
  case Nil
  then show ?case by simp
next
  case (Cons row rows)
  obtain ts px b s where row: "row = (ts, px, b, s)" by (cases row) auto
  show ?case
  proof (cases "trade_row bt book ts px b s")
    case (Inl err)
    with Cons.prems row show ?thesis by simp
  next
    case (Inr res)
    obtain bt1 book1 where res: "res = (bt1, book1)" by (cases res)
    from Cons.prems(1) row Inr res have
      "run_loop df rows bt1 book1
         (h[df := set_equity_at (h ! df) ts (bt_cash bt1 + real_of_int (bt_position bt1) * px)])
       = (e, bt', book', h')" by simp
    from Cons.IH[OF this] assms(2) show ?thesis by simp
  qed
qed

lemma iterrows_flags:
  assumes "iterrows df buys sells = Inr rows" and "(ts, px, b, s) \<in> set rows"
  shows "(ts, b) \<in> set (zip (df_index df) buys) \<and> (ts, s) \<in> set (zip (df_index df) sells) \<and> ts \<in> set (df_index df)"
proof -
  from assms obtain closes where
    m: "(ts, px, b, s) \<in> set (zip (df_index df) (zip closes (zip buys sells)))"
    by (auto simp: iterrows_def split: option.splits if_splits)
  then obtain i where "i < length (df_index df)" "df_index df ! i = ts"
    "i < length closes" "i < length buys" "i < length sells" "buys ! i = b" "sells ! i = s"
    by (auto simp: in_set_zip)
  then show ?thesis by (force simp: in_set_zip set_conv_nth)
qed

lemma run_loop_length:
  "run_loop df rows bt book h = (e, bt', book', h') \<Longrightarrow> length h' = length h"
proof (induction rows arbitrary: bt book h)
  case Nil
  then show ?case by simp
next
  case (Cons row rows)
  obtain ts px b s where row: "row = (ts, px, b, s)" by (cases row) auto
  show ?case
  proof (cases "trade_row bt book ts px b s")
    case (Inl err)
    with Cons.prems row show ?thesis by simp
  next
    case (Inr res)
    obtain bt1 book1 where res: "res = (bt1, book1)" by (cases res)
    from Cons.prems(1) row Inr res have
      "run_loop df rows bt1 book1
         (h[df := set_equity_at (h ! df) ts (bt_cash bt1 + real_of_int (bt_position bt1) * px)])
       = (e, bt', book', h')" by simp
    from Cons.IH[OF this] show ?thesis by simp
  qed
qed

lemma run_heap:
  assumes "run bt h price_df signals = (res, bt', h')"
  shows "take (length h) h' = h"
proof (cases "datetime_index (h ! price_df)")
  case False
  with assms show ?thesis by (simp add: run_def)
next
  case True
  let ?h1 = "h @ [h ! price_df]"
  let ?df = "length h"
  show ?thesis
  proof (cases "align_signals (?h1 ! signals) (df_index (?h1 ! ?df))")
    case (Inl err)
    with assms True have "h' = ?h1" by (simp add: run_def heap_new_def)
    then show ?thesis by simp
  next
    case (Inr flags)
    obtain buys sells where flags: "flags = (buys, sells)" by (cases flags)
    define n where "n = length (df_index (?h1 ! ?df))"
    define h6 where "h6 = ?h1[?df := (?h1 ! ?df)\<lparr>col_buy := Some (map Some buys),
      col_sell := Some (map Some sells), col_qty := Some (replicate n 0),
      col_cash := Some (replicate n None), col_equity := Some (replicate n None)\<rparr>]"
    define bt0 where "bt0 = bt\<lparr>bt_cash := bt_initial_cash bt, bt_position := 0\<rparr>"
    have h6: "take ?df h6 = h" "length h6 = Suc ?df" by (simp_all add: h6_def)
    show ?thesis
    proof (cases "iterrows (h6 ! ?df) buys sells")
      case (Inl err)
      with assms True Inr flags have "h' = h6"
        by (simp add: run_def heap_new_def Let_def h6_def n_def)
      with h6 show ?thesis by simp
    next
      case rows: (Inr rows)
      obtain e bt1 book h7 where lp: "run_loop ?df rows bt0 [] h6 = (e, bt1, book, h7)"
        by (cases "run_loop ?df rows bt0 [] h6") auto
      from run_loop_heap[OF lp, of ?df] run_loop_length[OF lp] h6
      have h7: "take ?df h7 = h" "length h7 = Suc ?df" by simp_all
      from assms True Inr flags rows lp
      have "h' = h7 \<or> (\<exists>x y. h' = (h7 @ [x])[length h7 := y])"
        by (auto simp: run_def finish_run_def heap_new_def Let_def h6_def n_def bt0_def
            split: option.splits sum.splits)
      with h7 show ?thesis by auto
    qed
  qed
qed

lemma run_trades:
  assumes "run bt h price_df signals = (Inr (trades, pnl_df, s), bt', h')"
    and "signals < length h" and "t \<in> set trades"
  obtains buys sells row_buy row_sell where
    "align_signals (h ! signals) (df_index (h ! price_df)) = Inr (buys, sells)"
    "(x_date t, row_buy) \<in> set (zip (df_index (h ! price_df)) buys)"
    "(x_date t, row_sell) \<in> set (zip (df_index (h ! price_df)) sells)"
    "x_date t \<in> set (df_index (h ! price_df))"
    "x_type t = BUY \<longrightarrow> row_buy" "x_type t = SELL \<longrightarrow> row_sell"
proof -
  let ?h1 = "h @ [h ! price_df]"
  let ?df = "length h"
  from assms(1) obtain buys sells where
    al: "align_signals (?h1 ! signals) (df_index (?h1 ! ?df)) = Inr (buys, sells)"
    by (auto simp: run_def heap_new_def Let_def split: if_splits sum.splits prod.splits)
  define n where "n = length (df_index (?h1 ! ?df))"
  define h6 where "h6 = ?h1[?df := (?h1 ! ?df)\<lparr>col_buy := Some (map Some buys),
      col_sell := Some (map Some sells), col_qty := Some (replicate n 0),
      col_cash := Some (replicate n None), col_equity := Some (replicate n None)\<rparr>]"
  define bt0 where "bt0 = bt\<lparr>bt_cash := bt_initial_cash bt, bt_position := 0\<rparr>"
  from assms(1) al obtain rows e bt1 h7 where
    it: "iterrows (h6 ! ?df) buys sells = Inr rows"
    and lp: "run_loop ?df rows bt0 [] h6 = (e, bt1, trades, h7)"
    by (auto simp: run_def finish_run_def heap_new_def Let_def h6_def n_def bt0_def
        split: if_splits sum.splits prod.splits option.splits)
  have idx: "df_index (h6 ! ?df) = df_index (h ! price_df)"
    by (simp add: h6_def)
  have al': "align_signals (h ! signals) (df_index (h ! price_df)) = Inr (buys, sells)"
    using al assms(2) by (simp add: nth_append)
  from run_loop_book[OF lp assms(3)] obtain px row_buy row_sell where
    m: "(x_date t, px, row_buy, row_sell) \<in> set rows"
    and f: "x_type t = BUY \<longrightarrow> row_buy" "x_type t = SELL \<longrightarrow> row_sell"
    by auto
  from iterrows_flags[OF it m] idx
  have z: "(x_date t, row_buy) \<in> set (zip (df_index (h ! price_df)) buys)"
    "(x_date t, row_sell) \<in> set (zip (df_index (h ! price_df)) sells)"
    "x_date t \<in> set (df_index (h ! price_df))"
    by simp_all
  show thesis using that[OF al' z f] .
qed

lemma count_after_first:
  "length (filter (\<lambda>b. b)
     (map (\<lambda>(is_sell, up). is_sell \<and> up)
        (zip (map (\<lambda>t. x_type t = SELL) rest)
             (map (\<lambda>d. case d of None \<Rightarrow> False | Some v \<Rightarrow> v > 0)
                (map (\<lambda>(prev, cur). Some (cur - prev))
                   (zip (map x_price (a # rest)) (map x_price rest)))))))
   = winning_sells (a # rest)"
proof (induction rest arbitrary: a)
  case Nil
  then show ?case by simp
next
  case (Cons b rest)
  from Cons.IH[of b] show ?case by simp
qed

lemma win_ratio_counts:
  "trades \<noteq> [] \<Longrightarrow>
     win_ratio trades = Some (real (winning_sells trades) / real (length trades))"
proof (cases trades)
  case Nil
  assume "trades \<noteq> []" with Nil show ?thesis by simp
next
  case (Cons a rest)
  show ?thesis using count_after_first[of rest a] Cons
    by (simp add: win_ratio_def mean_bool_def diff_def)
qed

lemma gapped_run:
  "run plain_backtester [three_day_prices, gapped_signals] 0 1
     = (Inr (two_trades,
            \<lparr>datetime_index = True, df_index = [1, 2, 3], col_close = None, col_buy = None,
              col_sell = None, col_qty = None, col_cash = None,
              col_equity = Some [Some 1000, Some 1000, Some 1100]\<rparr>,
            \<lparr>initial_cash_cell = 1000, final_nav_cell = Some 1100, total_return_cell = Some 10,
              trades_cell = 2, win_ratio_cell = Some (1 / 2)\<rparr>),
        \<lparr>bt_initial_cash = 1000, bt_commission = 0, bt_cash = 1100, bt_position = 0\<rparr>,
        [three_day_prices, gapped_signals,
         \<lparr>datetime_index = True, df_index = [1, 2, 3], col_close = Some [2000, 100, 110],
           col_buy = Some [Some True, Some True, Some False],
           col_sell = Some [Some False, Some False, Some True],
           col_qty = Some [0, 0, 0], col_cash = Some [None, None, None],
           col_equity = Some [Some 1000, Some 1000, Some 1100]\<rparr>,
         \<lparr>datetime_index = True, df_index = [1, 2, 3], col_close = Some [2000, 100, 110],
           col_buy = Some [Some True, Some True, Some False],
           col_sell = Some [Some False, Some False, Some True],
           col_qty = Some [0, 0, 0], col_cash = Some [None, None, None],
           col_equity = Some [Some 1000, Some 1000, Some 1100]\<rparr>])"
  by code_simp

section \<open>The cash allocator\<close>

text \<open>
  Claim C3, as the code has it. \<^verbatim>\<open>get_available_cash_for_stock\<close> returns exactly
  \<open>min (max 0 (cash - portfolioValue * minReserveFraction)) (portfolioValue * maxPositionFraction)\<close>
  for every portfolio value, cash amount and pair of fractions. The method assigns no
  attribute, so the model is a function to the returned float alone. Whenever
  \<open>cash \<le> portfolioValue * minReserveFraction\<close> the result is
  \<open>min 0 (portfolioValue * maxPositionFraction)\<close>: it is \<open>0\<close> when the maximum
  allocation is not negative, and the negative maximum allocation otherwise.
\<close>

theorem available_cash_formula:
  "get_available_cash_for_stock pm current_prices =
     availableCash (get_portfolio_value pm current_prices) (cash pm)
       (max_position_size (config pm)) (min_cash_reserve (config pm))
   \<and> (cash pm \<le> get_portfolio_value pm current_prices * min_cash_reserve (config pm) \<longrightarrow>
        get_available_cash_for_stock pm current_prices =
          min 0 (get_portfolio_value pm current_prices * max_position_size (config pm)))
   \<and> (cash pm \<le> get_portfolio_value pm current_prices * min_cash_reserve (config pm) \<and>
        0 \<le> get_portfolio_value pm current_prices * max_position_size (config pm) \<longrightarrow>
        get_available_cash_for_stock pm current_prices = 0)"
  by (simp add: get_available_cash_for_stock_def availableCash_def Let_def max_def min_def)

theorem available_cash_formula_witness:
  "cash held_manager
     \<le> get_portfolio_value held_manager [(''A'', 100)] * min_cash_reserve (config held_manager)
   \<and> 0 \<le> get_portfolio_value held_manager [(''A'', 100)] * max_position_size (config held_manager)
   \<and> get_available_cash_for_stock held_manager [(''A'', 100)] = 0
   \<and> availableCash 1050 50 0.25 0.1 = 0"
  using available_cash_formula [of held_manager "[(''A'', 100)]"]
  by (simp add: held_manager_def default_config_def get_portfolio_value_def prices_get_def)

text \<open>
  With a negative portfolio value the reserve test holds and the result is not \<open>0\<close>:
  the allocator returns the negative maximum allocation.
\<close>

theorem available_cash_negative_counterexample:
  "cash overdrawn_manager
     \<le> get_portfolio_value overdrawn_manager [] * min_cash_reserve (config overdrawn_manager)
   \<and> get_available_cash_for_stock overdrawn_manager [] = - 250"
  by (simp add: overdrawn_manager_def PortfolioManager_init_def
      get_available_cash_for_stock_def get_portfolio_value_def)

section \<open>Cash accounting of one trade\<close>

text \<open>
  Claim C4. An executed BUY appends one record whose commission is
  \<open>price * quantity * commissionRate\<close>, takes \<open>value + commission\<close> from the cash and
  records the new cash as \<open>cash_after\<close>; an executed SELL adds \<open>value - commission\<close>
  and records the new cash likewise.
\<close>

theorem trade_cash_accounting:
  "(execute_buy pm stock price date current_prices = Inr (True, pm') \<longrightarrow>
      (\<exists>t. trade_log pm' = trade_log pm @ [t] \<and> t_type t = BUY \<and> t_stock t = stock \<and>
           t_price t = price \<and> 0 < t_quantity t \<and>
           t_value t = t_price t * real_of_int (t_quantity t) \<and>
           t_commission t = t_price t * real_of_int (t_quantity t) * commission (config pm) \<and>
           cash pm' = cash pm - (t_value t + t_commission t) \<and>
           t_cash_after t = cash pm'))
   \<and> (execute_sell pm stock price date = Inr (True, pm') \<longrightarrow>
      (\<exists>t. trade_log pm' = trade_log pm @ [t] \<and> t_type t = SELL \<and> t_stock t = stock \<and>
           t_price t = price \<and> 0 < t_quantity t \<and>
           t_value t = t_price t * real_of_int (t_quantity t) \<and>
           t_commission t = t_price t * real_of_int (t_quantity t) * commission (config pm) \<and>
           cash pm' = cash pm + (t_value t - t_commission t) \<and>
           t_cash_after t = cash pm'))"
  by (auto simp: execute_buy_def execute_sell_def can_buy_def can_sell_def Let_def
           split: sum.splits if_splits prod.splits np_float.splits)

lemma execute_buy_fresh:
  "execute_buy fresh_manager ''A'' 100 1 [(''A'', 100)] = Inr (True, bought_manager)"
  by (simp add: fresh_manager_def bought_manager_def default_config_def PortfolioManager_init_def
      execute_buy_def can_buy_def positions_item_def get_available_cash_for_stock_def
      get_portfolio_value_def prices_get_def py_int_def np_div_def Let_def)

lemma execute_sell_bought:
  "execute_sell bought_manager ''A'' 110 2 = Inr (True, sold_manager)"
  by (simp add: bought_manager_def sold_manager_def default_config_def
      execute_sell_def can_sell_def positions_item_def Let_def fun_upd_idem)

theorem trade_cash_accounting_witness:
  "execute_buy fresh_manager ''A'' 100 1 [(''A'', 100)] = Inr (True, bought_manager)
   \<and> cash bought_manager = cash fresh_manager - (200 + 0.1)
   \<and> t_cash_after (last (trade_log bought_manager)) = cash bought_manager
   \<and> execute_sell bought_manager ''A'' 110 2 = Inr (True, sold_manager)
   \<and> cash sold_manager = cash bought_manager + (220 - 0.11)
   \<and> t_cash_after (last (trade_log sold_manager)) = cash sold_manager"
  using trade_cash_accounting [of fresh_manager "''A''" 100 1 "[(''A'', 100)]" bought_manager]
    trade_cash_accounting [of bought_manager "''A''" 110 2 "[]" sold_manager]
    execute_buy_fresh execute_sell_bought
  by (simp add: fresh_manager_def bought_manager_def sold_manager_def default_config_def
      PortfolioManager_init_def)


section \<open>No pyramiding\<close>

text \<open>
  Claim C6, for the multi-instrument engine. In the state that any run over any dates
  returns, for a manager started from any configuration and instrument list, the trade
  records of every instrument alternate BUY, SELL, BUY, ... starting with BUY, the share
  count of the instrument is not negative and it is positive exactly when the last record
  of the instrument is a BUY; no daily snapshot holds a negative share count. A run over
  a prefix of the dates is a run, so this holds after every simulated day.
\<close>

theorem no_pyramiding_run:
  assumes "simulate_dates sigs dates (PortfolioManager_init cfg stks) = Inr pm"
  shows "no_pyramiding pm stock \<and> snapshots_nonnegative pm"
proof -
  let ?P = "\<lambda>pm. (\<forall>s. no_pyramiding pm s) \<and> snapshots_nonnegative pm"
  have init: "?P (PortfolioManager_init cfg stks)"
    by (simp add: PortfolioManager_init_def no_pyramiding_def stock_sides_def
        snapshots_nonnegative_def)
  have "?P pm"
  proof (rule simulate_dates_invariant[where P = ?P, OF _ _ _ init assms])
    fix pm date ticker row ok pm'
    assume "?P pm" and "execute_buy pm ticker (close row) date (current_prices_on sigs date) = Inr (ok, pm')"
    then show "?P pm'"
      using no_pyramiding_buy snapshots_nonnegative_buy by blast
  next
    fix pm date ticker row ok pm'
    assume "?P pm" and "execute_sell pm ticker (close row) date = Inr (ok, pm')"
    then show "?P pm'"
      using no_pyramiding_sell snapshots_nonnegative_sell by blast
  next
    fix pm date
    assume p: "?P pm"
    then have "\<forall>s. 0 \<le> positions pm s" by (simp add: no_pyramiding_def)
    with p show "?P (update_daily_value pm date (current_prices_on sigs date))"
      by (simp add: no_pyramiding_snapshot snapshots_nonnegative_snapshot)
  qed
  then show ?thesis by simp
qed

theorem no_pyramiding_run_witness:
  "simulate_dates round_trip_signals [1, 2] (PortfolioManager_init default_config [''A''])
     = Inr round_trip_manager
   \<and> stock_sides round_trip_manager ''A'' = [BUY, SELL]
   \<and> no_pyramiding round_trip_manager ''A'' \<and> snapshots_nonnegative round_trip_manager"
  using no_pyramiding_run [OF round_trip_run_dates, of "''A''"] round_trip_run_dates
  by (simp add: stock_sides_def round_trip_manager_def)

section \<open>The cash is never negative\<close>

lemma rounding_upper: "rounding fl u \<Longrightarrow> 0 \<le> x \<Longrightarrow> fl x \<le> (1 + u) * x"
proof -
  assume r: "rounding fl u" and x: "0 \<le> x"
  then have "\<bar>fl x - x\<bar> \<le> u * \<bar>x\<bar>" unfolding rounding_def by blast
  with x show ?thesis by (simp add: algebra_simps abs_le_iff)
qed

lemma rounding_lower: "rounding fl u \<Longrightarrow> 0 \<le> x \<Longrightarrow> (1 - u) * x \<le> fl x"
proof -
  assume r: "rounding fl u" and x: "0 \<le> x"
  then have "\<bar>fl x - x\<bar> \<le> u * \<bar>x\<bar>" unfolding rounding_def by blast
  with x show ?thesis by (simp add: algebra_simps abs_le_iff)
qed

lemma rounding_nonneg: "rounding fl u \<Longrightarrow> 0 \<le> x \<Longrightarrow> 0 \<le> fl x"
proof -
  assume r: "rounding fl u" and x: "0 \<le> x"
  from r have "u < 1" by (simp add: rounding_def)
  with x have "0 \<le> (1 - u) * x" by simp
  with rounding_lower[OF r x] show ?thesis by simp
qed

lemma rounding_nonpos: "rounding fl u \<Longrightarrow> x \<le> 0 \<Longrightarrow> fl x \<le> 0"
proof -
  assume r: "rounding fl u" and x: "x \<le> 0"
  then have "\<bar>fl x - x\<bar> \<le> u * \<bar>x\<bar>" and "u < 1" unfolding rounding_def by blast+
  with x have "fl x \<le> x + u * (- x)" by (simp add: abs_le_iff)
  also have "\<dots> = (1 - u) * x" by (simp add: algebra_simps)
  also have "\<dots> \<le> 0" using x \<open>u < 1\<close> by (simp add: mult_nonneg_nonpos)
  finally show ?thesis .
qed

lemma buy_cost_fl_le_cash:
  fixes fl :: "real \<Rightarrow> real" and u C P m r c price :: real
  assumes R: "rounding fl u" and C0: "0 \<le> C" and CP: "C \<le> P" and m0: "0 \<le> m"
    and r0: "0 \<le> r" and r1: "r \<le> 1" and c0: "0 \<le> c"
    and cov: "(1 + u) ^ 6 * c * m + (1 + u) ^ 5 - 1 \<le> (1 + u) ^ 5 * (1 - u) * r
         \<or> (1 + u) ^ 5 * (1 + (1 + u) * c) * (1 - (1 - u) * r) \<le> 1"
    and p0: "0 < price"
    and le: "price \<le> min (max 0 (fl (C - fl (P * r)))) (fl (P * m))"
  defines "avail \<equiv> min (max 0 (fl (C - fl (P * r)))) (fl (P * m))"
  defines "tv \<equiv> fl (price * fl (real_of_int (py_int (fl (avail / price)))))"
  shows "fl (tv + fl (tv * c)) \<le> C"
proof -
  define U where "U = 1 + u"
  from R have u: "0 \<le> u" "u < 1" by (simp_all add: rounding_def)
  then have U: "1 \<le> U" "0 < U" "0 \<le> U" by (simp_all add: U_def)
  have up: "fl x \<le> U * x" if "0 \<le> x" for x
    using rounding_upper[OF R that] by (simp add: U_def)
  have lo: "(1 - u) * x \<le> fl x" if "0 \<le> x" for x
    using rounding_lower[OF R that] .
  have nn: "0 \<le> fl x" if "0 \<le> x" for x
    using rounding_nonneg[OF R that] .
  have P0: "0 \<le> P" using C0 CP by simp
  define N where "N = fl (P * r)"
  define D where "D = fl (C - N)"
  define A where "A = fl (P * m)"
  have avail: "avail = min (max 0 D) A" by (simp add: avail_def D_def N_def A_def)
  have av0: "0 < avail" using le p0 by (simp add: avail_def)
  have avD: "avail \<le> D" using av0 by (simp add: avail min_def max_def split: if_splits)
  have avA: "avail \<le> A" by (simp add: avail)
  have D0: "0 < D" using av0 avD by simp
  have CN: "0 < C - N"
  proof (rule ccontr)
    assume "\<not> 0 < C - N"
    then have "fl (C - N) \<le> 0" using rounding_nonpos[OF R, of "C - N"] by simp
    with D0 show False by (simp add: D_def)
  qed
  have Pr0: "0 \<le> P * r" using P0 r0 by simp
  have N_lo: "(1 - u) * (P * r) \<le> N" unfolding N_def using lo[OF Pr0] .
  have "D \<le> U * (C - N)" unfolding D_def using up[of "C - N"] CN by simp
  also have "\<dots> \<le> U * (C - (1 - u) * (P * r))"
    using N_lo U(3) by (intro mult_left_mono) simp_all
  finally have D_up: "D \<le> U * (C - (1 - u) * (P * r))" .
  have A_up: "A \<le> U * (P * m)" unfolding A_def using up[of "P * m"] P0 m0 by simp
  define q where "q = fl (avail / price)"
  have q0: "0 \<le> q" unfolding q_def using nn[of "avail / price"] av0 p0 by simp
  have q_up: "q \<le> U * (avail / price)" unfolding q_def using up[of "avail / price"] av0 p0 by simp
  define n where "n = py_int q"
  have n: "real_of_int n \<le> q" "0 \<le> n" using q0 by (simp_all add: n_def py_int_def)
  define nf where "nf = fl (real_of_int n)"
  have nf0: "0 \<le> nf" unfolding nf_def using nn n(2) by simp
  have nf_up: "nf \<le> U * real_of_int n" unfolding nf_def using up n(2) by simp
  have tv: "tv = fl (price * nf)" by (simp add: tv_def nf_def n_def q_def)
  have tv0: "0 \<le> tv" unfolding tv using nn[of "price * nf"] p0 nf0 by simp
  have "tv \<le> U * (price * nf)" unfolding tv using up[of "price * nf"] p0 nf0 by simp
  also have "\<dots> \<le> U * (price * (U * real_of_int n))"
    using nf_up p0 U(3) by (intro mult_left_mono) simp_all
  also have "\<dots> \<le> U * (price * (U * q))"
    using n(1) p0 U(3) by (intro mult_left_mono) simp_all
  also have "\<dots> \<le> U * (price * (U * (U * (avail / price))))"
    using q_up p0 U(3) by (intro mult_left_mono) simp_all
  also have "\<dots> = U ^ 3 * avail" using p0 by (simp add: power3_eq_cube)
  finally have tv_av: "tv \<le> U ^ 3 * avail" .
  define K where "K = fl (tv * c)"
  have K_up: "K \<le> U * (tv * c)" unfolding K_def using up[of "tv * c"] tv0 c0 by simp
  have K0: "0 \<le> K" unfolding K_def using nn[of "tv * c"] tv0 c0 by simp
  have "fl (tv + K) \<le> U * (tv + K)" using up[of "tv + K"] tv0 K0 by simp
  also have "\<dots> \<le> U * (tv + U * (tv * c))"
    using K_up U(3) by (intro mult_left_mono) simp_all
  also have "\<dots> = U * tv + U ^ 2 * c * tv" by (simp add: algebra_simps power2_eq_square)
  finally have T_up: "fl (tv + K) \<le> U * tv + U ^ 2 * c * tv" .
  have U3: "0 \<le> U ^ 3" "0 \<le> U ^ 2" "0 \<le> U ^ 4" "0 \<le> U ^ 5" "1 \<le> U ^ 5" using U by simp_all
  have tvD: "tv \<le> U ^ 4 * (C - (1 - u) * (P * r))"
  proof -
    have "tv \<le> U ^ 3 * D" using tv_av avD U3(1) by (meson mult_left_mono order_trans)
    also have "\<dots> \<le> U ^ 3 * (U * (C - (1 - u) * (P * r)))"
      using D_up U3(1) by (rule mult_left_mono)
    also have "\<dots> = U ^ 4 * (C - (1 - u) * (P * r))" by (simp add: power_numeral_reduce)
    finally show ?thesis .
  qed
  have tvA: "tv \<le> U ^ 4 * (P * m)"
  proof -
    have "tv \<le> U ^ 3 * A" using tv_av avA U3(1) by (meson mult_left_mono order_trans)
    also have "\<dots> \<le> U ^ 3 * (U * (P * m))"
      using A_up U3(1) by (rule mult_left_mono)
    also have "\<dots> = U ^ 4 * (P * m)" by (simp add: power_numeral_reduce)
    finally show ?thesis .
  qed
  from cov show ?thesis
  proof
    assume HA: "(1 + u) ^ 6 * c * m + (1 + u) ^ 5 - 1 \<le> (1 + u) ^ 5 * (1 - u) * r"
    have a1: "U * tv \<le> U * (U ^ 4 * (C - (1 - u) * (P * r)))"
      using tvD U(3) by (rule mult_left_mono)
    have "0 \<le> U ^ 2 * c" using U3(2) c0 by simp
    then have a2: "U ^ 2 * c * tv \<le> U ^ 2 * c * (U ^ 4 * (P * m))"
      using tvA by (rule mult_left_mono[rotated])
    have "fl (tv + K) \<le> U * (U ^ 4 * (C - (1 - u) * (P * r))) + U ^ 2 * c * (U ^ 4 * (P * m))"
      using T_up a1 a2 by linarith
    also have "\<dots> = U ^ 5 * C + P * (U ^ 6 * c * m - U ^ 5 * (1 - u) * r)"
      by (simp add: algebra_simps power_numeral_reduce)
    also have "\<dots> \<le> U ^ 5 * C + P * (1 - U ^ 5)"
    proof -
      have "U ^ 6 * c * m - U ^ 5 * (1 - u) * r \<le> 1 - U ^ 5" using HA by (simp add: U_def)
      then have "P * (U ^ 6 * c * m - U ^ 5 * (1 - u) * r) \<le> P * (1 - U ^ 5)"
        using P0 by (rule mult_left_mono)
      then show ?thesis by simp
    qed
    also have "\<dots> = C - (U ^ 5 - 1) * (P - C)" by (simp add: algebra_simps)
    also have "\<dots> \<le> C"
    proof -
      have "0 \<le> (U ^ 5 - 1) * (P - C)" using U3(5) CP by simp
      then show ?thesis by simp
    qed
    finally show ?thesis by (simp add: K_def)
  next
    assume HB: "(1 + u) ^ 5 * (1 + (1 + u) * c) * (1 - (1 - u) * r) \<le> 1"
    have ur: "0 \<le> (1 - u) * r" using u r0 by simp
    have "(1 - u) * (C * r) \<le> (1 - u) * (P * r)"
      using CP r0 u by (intro mult_left_mono mult_right_mono) simp_all
    then have "C - (1 - u) * (P * r) \<le> C * (1 - (1 - u) * r)" by (simp add: algebra_simps)
    then have "U ^ 4 * (C - (1 - u) * (P * r)) \<le> U ^ 4 * (C * (1 - (1 - u) * r))"
      using U3(3) by (rule mult_left_mono)
    with tvD have tvC: "tv \<le> U ^ 4 * (C * (1 - (1 - u) * r))" by simp
    have W0: "0 \<le> U + U ^ 2 * c" using U(3) U3(2) c0 by simp
    have "fl (tv + K) \<le> tv * (U + U ^ 2 * c)" using T_up by (simp add: algebra_simps)
    also have "\<dots> \<le> (U ^ 4 * (C * (1 - (1 - u) * r))) * (U + U ^ 2 * c)"
      using tvC W0 by (rule mult_right_mono)
    also have "\<dots> = (U ^ 5 * (1 + U * c) * (1 - (1 - u) * r)) * C"
      by (simp add: algebra_simps power_numeral_reduce)
    also have "\<dots> \<le> 1 * C"
      using HB C0 by (intro mult_right_mono) (simp_all add: U_def)
    finally show ?thesis by (simp add: K_def)
  qed
qed

lemma execute_buy_fl_cases:
  assumes "execute_buy_fl fl pm stock price date current_prices = Inr (ok, pm')"
  shows "pm' = pm \<or>
         (\<exists>cash' t q.
            price \<le> get_available_cash_for_stock_fl fl pm current_prices \<and>
            q = py_int (fl (get_available_cash_for_stock_fl fl pm current_prices / price)) \<and>
            0 < q \<and>
            cash' = fl (cash pm - fl (fl (price * fl (real_of_int q))
                        + fl (fl (price * fl (real_of_int q)) * commission (config pm)))) \<and>
            t_cash_after t = cash' \<and>
            pm' = pm\<lparr>cash := cash', positions := (positions pm)(stock := positions pm stock + q),
                      trade_log := trade_log pm @ [t]\<rparr>)"
proof (cases ok)
  case False
  with assms have "pm' = pm"
    by (auto simp: execute_buy_fl_def can_buy_fl_def positions_item_def np_div_def Let_def
             split: sum.splits if_splits prod.splits np_float.splits)
  then show ?thesis by simp
next
  case True
  let ?a = "get_available_cash_for_stock_fl fl pm current_prices"
  let ?q = "py_int (fl (?a / price))"
  let ?c = "fl (cash pm - fl (fl (price * fl (real_of_int ?q))
                        + fl (fl (price * fl (real_of_int ?q)) * commission (config pm))))"
  let ?t = "\<lparr>t_date = date, t_stock = stock, t_type = BUY, t_price = price,
              t_quantity = ?q, t_value = fl (price * fl (real_of_int ?q)),
              t_commission = fl (fl (price * fl (real_of_int ?q)) * commission (config pm)),
              t_cash_after = ?c\<rparr>"
  from assms True have "price \<le> ?a \<and> 0 < ?q \<and>
      pm' = pm\<lparr>cash := ?c, positions := (positions pm)(stock := positions pm stock + ?q),
                trade_log := trade_log pm @ [?t]\<rparr>"
    by (auto simp: execute_buy_fl_def can_buy_fl_def positions_item_def np_div_def Let_def
             split: sum.splits if_splits prod.splits np_float.splits)
  moreover have "t_cash_after ?t = ?c" by simp
  ultimately show ?thesis by blast
qed

lemma execute_sell_fl_cases:
  assumes "execute_sell_fl fl pm stock price date = Inr (ok, pm')"
  shows "pm' = pm \<or>
         (\<exists>cash' t.
            0 < positions pm stock \<and>
            cash' = fl (cash pm + fl (fl (price * fl (real_of_int (positions pm stock)))
                        - fl (fl (price * fl (real_of_int (positions pm stock))) * commission (config pm)))) \<and>
            t_cash_after t = cash' \<and>
            pm' = pm\<lparr>cash := cash', positions := (positions pm)(stock := 0),
                      trade_log := trade_log pm @ [t]\<rparr>)"
proof (cases ok)
  case False
  with assms have "pm' = pm"
    by (auto simp: execute_sell_fl_def can_sell_def positions_item_def Let_def
             split: sum.splits if_splits prod.splits)
  then show ?thesis by simp
next
  case True
  let ?tv = "fl (price * fl (real_of_int (positions pm stock)))"
  let ?c = "fl (cash pm + fl (?tv - fl (?tv * commission (config pm))))"
  let ?t = "\<lparr>t_date = date, t_stock = stock, t_type = SELL, t_price = price,
              t_quantity = positions pm stock, t_value = ?tv,
              t_commission = fl (?tv * commission (config pm)),
              t_cash_after = ?c\<rparr>"
  from assms True have "0 < positions pm stock \<and>
      pm' = pm\<lparr>cash := ?c, positions := (positions pm)(stock := 0),
                trade_log := trade_log pm @ [?t]\<rparr>"
    by (auto simp: execute_sell_fl_def can_sell_def positions_item_def Let_def
             split: sum.splits if_splits prod.splits)
  moreover have "t_cash_after ?t = ?c" by simp
  ultimately show ?thesis by blast
qed

lemma fl_sum_nonneg:
  assumes "rounding fl u" and "0 \<le> a" and "\<forall>t \<in> set ts. 0 \<le> t"
  shows "0 \<le> foldl (\<lambda>acc item. fl (acc + item)) a ts"
  using assms(2,3)
proof (induction ts arbitrary: a)
  case Nil
  then show ?case by simp
next
  case (Cons t ts)
  then have "0 \<le> fl (a + t)" using rounding_nonneg[OF assms(1), of "a + t"] by simp
  with Cons show ?case by simp
qed

lemma portfolio_value_fl_ge_cash:
  assumes "rounding fl u" and "\<forall>s. 0 \<le> positions pm s" and "\<forall>(ticker, p) \<in> set prices. 0 < p"
    and "fl (cash pm) = cash pm"
  shows "cash pm \<le> get_portfolio_value_fl fl pm prices"
proof -
  have nonneg: "0 \<le> fl (fl (real_of_int (positions pm stock)) * prices_get prices stock)" for stock
  proof -
    have "0 \<le> fl (real_of_int (positions pm stock))"
      using rounding_nonneg[OF assms(1)] assms(2) by simp
    moreover have "0 \<le> prices_get prices stock" using prices_get_nonneg[OF assms(3)] .
    ultimately show ?thesis using rounding_nonneg[OF assms(1)] by simp
  qed
  have "0 \<le> foldl (\<lambda>acc item. fl (acc + item)) 0
      (map (\<lambda>stock. fl (fl (real_of_int (positions pm stock)) * prices_get prices stock)) (stocks pm))"
    by (rule fl_sum_nonneg[OF assms(1)]) (use nonneg in auto)
  then have "fl (cash pm) \<le> get_portfolio_value_fl fl pm prices"
    using assms(1) unfolding get_portfolio_value_fl_def Let_def rounding_def
    by (metis add.right_neutral add_left_mono)
  with assms(4) show ?thesis by simp
qed

lemma solvent_buy_fl:
  assumes R: "rounding fl u" and S: "solvent fl cfg pm" and p0: "0 < price"
    and pr: "\<forall>(ticker, p) \<in> set prices. 0 < p"
    and v: "valid_config cfg" and cov: "commission_covered u cfg"
    and e: "execute_buy_fl fl pm stock price date prices = Inr (ok, pm')"
  shows "solvent fl cfg pm'"
proof -
  from S have c0: "0 \<le> cash pm" and pos: "\<forall>s. 0 \<le> positions pm s" and cfg: "config pm = cfg"
    and flc: "fl (cash pm) = cash pm"
    and logs: "list_all (\<lambda>t. 0 \<le> t_cash_after t) (trade_log pm)"
      "list_all (\<lambda>d. 0 \<le> d_cash d) (daily_values pm)"
    by (auto simp: solvent_def cash_nonnegative_def)
  from R have idem: "\<And>x. fl (fl x) = fl x" unfolding rounding_def by blast
  from execute_buy_fl_cases[OF e] show ?thesis
  proof (elim disjE exE conjE)
    assume "pm' = pm" then show ?thesis using S by simp
  next
    fix cash' t q
    assume 2: "price \<le> get_available_cash_for_stock_fl fl pm prices"
      "q = py_int (fl (get_available_cash_for_stock_fl fl pm prices / price))"
      "0 < q"
      "cash' = fl (cash pm - fl (fl (price * fl (real_of_int q))
                        + fl (fl (price * fl (real_of_int q)) * commission (config pm))))"
      "t_cash_after t = cash'"
      "pm' = pm\<lparr>cash := cash', positions := (positions pm)(stock := positions pm stock + q),
                      trade_log := trade_log pm @ [t]\<rparr>"
    let ?P = "get_portfolio_value_fl fl pm prices"
    have CP: "cash pm \<le> ?P" using portfolio_value_fl_ge_cash[OF R pos pr flc] .
    have av: "get_available_cash_for_stock_fl fl pm prices
        = min (max 0 (fl (cash pm - fl (?P * min_cash_reserve cfg)))) (fl (?P * max_position_size cfg))"
      by (simp add: get_available_cash_for_stock_fl_def Let_def cfg)
    from v have vc: "0 \<le> max_position_size cfg" "0 \<le> min_cash_reserve cfg"
      "min_cash_reserve cfg \<le> 1" "0 \<le> commission cfg"
      by (simp_all add: valid_config_def)
    have cost: "fl (fl (price * fl (real_of_int q)) + fl (fl (price * fl (real_of_int q)) * commission cfg))
        \<le> cash pm"
      using buy_cost_fl_le_cash[OF R c0 CP vc(1,2,3,4) cov[unfolded commission_covered_def Let_def] p0
          2(1)[unfolded av]]
      unfolding 2(2) av .
    then have "0 \<le> cash'" unfolding 2(4) cfg using rounding_nonneg[OF R] by simp
    moreover have "fl cash' = cash'" unfolding 2(4) by (rule idem)
    ultimately show ?thesis
      using pos logs cfg 2(3,5) unfolding 2(6) solvent_def cash_nonnegative_def
      by simp
  qed
qed

lemma solvent_sell_fl:
  assumes R: "rounding fl u" and S: "solvent fl cfg pm" and p0: "0 < price"
    and c0: "0 \<le> commission cfg" and c1: "commission cfg \<le> 1"
    and e: "execute_sell_fl fl pm stock price date = Inr (ok, pm')"
  shows "solvent fl cfg pm'"
proof -
  from S have cash0: "0 \<le> cash pm" and pos: "\<forall>s. 0 \<le> positions pm s" and cfg: "config pm = cfg"
    and logs: "list_all (\<lambda>t. 0 \<le> t_cash_after t) (trade_log pm)"
      "list_all (\<lambda>d. 0 \<le> d_cash d) (daily_values pm)"
    by (auto simp: solvent_def cash_nonnegative_def)
  from R have idem: "\<And>x. fl (fl x) = fl x" and mono: "\<And>x y. x \<le> y \<Longrightarrow> fl x \<le> fl y"
    unfolding rounding_def by blast+
  from execute_sell_fl_cases[OF e] show ?thesis
  proof (elim disjE exE conjE)
    assume "pm' = pm" then show ?thesis using S by simp
  next
    fix cash' t
    assume 2: "0 < positions pm stock"
      "cash' = fl (cash pm + fl (fl (price * fl (real_of_int (positions pm stock)))
                        - fl (fl (price * fl (real_of_int (positions pm stock))) * commission (config pm))))"
      "t_cash_after t = cash'"
      "pm' = pm\<lparr>cash := cash', positions := (positions pm)(stock := 0),
                      trade_log := trade_log pm @ [t]\<rparr>"
    define tv where "tv = fl (price * fl (real_of_int (positions pm stock)))"
    have "0 \<le> fl (real_of_int (positions pm stock))" using rounding_nonneg[OF R] 2(1) by simp
    then have tv0: "0 \<le> tv" unfolding tv_def using rounding_nonneg[OF R] p0 by simp
    have "tv * commission cfg \<le> tv" using tv0 c1 by (simp add: mult_left_le)
    then have "fl (tv * commission cfg) \<le> fl tv" by (rule mono)
    also have "fl tv = tv" unfolding tv_def by (rule idem)
    finally have "0 \<le> tv - fl (tv * commission cfg)" by simp
    then have "0 \<le> fl (tv - fl (tv * commission cfg))" by (rule rounding_nonneg[OF R])
    with cash0 have "0 \<le> cash pm + fl (tv - fl (tv * commission cfg))" by simp
    then have "0 \<le> cash'" unfolding 2(2) cfg tv_def by (rule rounding_nonneg[OF R])
    moreover have "fl cash' = cash'" unfolding 2(2) by (rule idem)
    ultimately show ?thesis
      using pos logs cfg 2(3) unfolding 2(4) solvent_def cash_nonnegative_def
      by simp
  qed
qed

lemma solvent_snapshot_fl:
  "solvent fl cfg pm \<Longrightarrow> solvent fl cfg (update_daily_value_fl fl pm date prices)"
  by (simp add: solvent_def cash_nonnegative_def update_daily_value_fl_def Let_def)

lemma process_signals_fl_invariant:
  assumes buy_step: "\<And>pm ticker row ok pm'. P pm \<Longrightarrow> (ticker, row) \<in> set rows \<Longrightarrow>
            execute_buy_fl fl pm ticker (close row) date current_prices = Inr (ok, pm') \<Longrightarrow> P pm'"
    and sell_step: "\<And>pm ticker row ok pm'. P pm \<Longrightarrow> (ticker, row) \<in> set rows \<Longrightarrow>
            execute_sell_fl fl pm ticker (close row) date = Inr (ok, pm') \<Longrightarrow> P pm'"
    and "P portfolio"
    and "process_signals_fl fl rows date current_prices portfolio = Inr portfolio'"
  shows "P portfolio'"
  using assms
proof (induction rows arbitrary: portfolio)
  case Nil
  then show ?case by simp
next
  case (Cons a rows)
  obtain ticker row where a: "a = (ticker, row)" by (cases a)
  have IH: "\<And>pm. P pm \<Longrightarrow> process_signals_fl fl rows date current_prices pm = Inr portfolio' \<Longrightarrow> P portfolio'"
    using Cons.IH Cons.prems(1,2) by (metis list.set_intros(2))
  show ?case
  proof (cases "buy row")
    case True
    with Cons.prems(4) a obtain ok pm1 where
      e: "execute_buy_fl fl portfolio ticker (close row) date current_prices = Inr (ok, pm1)"
      and r: "process_signals_fl fl rows date current_prices pm1 = Inr portfolio'"
      by (auto simp: Let_def split: sum.splits prod.splits)
    have "P pm1" using Cons.prems(1)[OF Cons.prems(3) _ e] a by simp
    then show ?thesis using IH r by blast
  next
    case False
    show ?thesis
    proof (cases "sell row")
      case True
      with False Cons.prems(4) a obtain ok pm1 where
        e: "execute_sell_fl fl portfolio ticker (close row) date = Inr (ok, pm1)"
        and r: "process_signals_fl fl rows date current_prices pm1 = Inr portfolio'"
        by (auto simp: Let_def split: sum.splits prod.splits)
      have "P pm1" using Cons.prems(2)[OF Cons.prems(3) _ e] a by simp
      then show ?thesis using IH r by blast
    next
      case nosell: False
      with False Cons.prems(4) a have "process_signals_fl fl rows date current_prices portfolio = Inr portfolio'"
        by (simp add: Let_def)
      then show ?thesis using IH Cons.prems(3) by blast
    qed
  qed
qed

lemma simulate_dates_fl_invariant:
  assumes buy_step: "\<And>pm date ticker row ok pm'. P pm \<Longrightarrow> (ticker, row) \<in> set (rows_on sigs date) \<Longrightarrow>
            execute_buy_fl fl pm ticker (close row) date (current_prices_on sigs date) = Inr (ok, pm') \<Longrightarrow> P pm'"
    and sell_step: "\<And>pm date ticker row ok pm'. P pm \<Longrightarrow> (ticker, row) \<in> set (rows_on sigs date) \<Longrightarrow>
            execute_sell_fl fl pm ticker (close row) date = Inr (ok, pm') \<Longrightarrow> P pm'"
    and snapshot_step: "\<And>pm date. P pm \<Longrightarrow> P (update_daily_value_fl fl pm date (current_prices_on sigs date))"
    and "P portfolio"
    and "simulate_dates_fl fl sigs dates portfolio = Inr portfolio'"
  shows "P portfolio'"
  using assms(4,5)
proof (induction dates arbitrary: portfolio)
  case Nil
  then show ?case by simp
next
  case (Cons date dates)
  from Cons.prems(2) obtain pm1 where
    d: "simulate_day_fl fl sigs portfolio date = Inr pm1"
    and r: "simulate_dates_fl fl sigs dates pm1 = Inr portfolio'"
    by (auto split: sum.splits)
  from d obtain pm2 where
    p: "process_signals_fl fl (rows_on sigs date) date (current_prices_on sigs date) portfolio = Inr pm2"
    and u: "pm1 = update_daily_value_fl fl pm2 date (current_prices_on sigs date) \<or> pm1 = pm2"
    by (auto simp: simulate_day_fl_def Let_def split: sum.splits if_splits)
  have "P pm2"
    by (rule process_signals_fl_invariant[where P = P, OF _ _ Cons.prems(1) p])
       (use buy_step sell_step in blast)+
  then have "P pm1" using u snapshot_step by auto
  then show ?case using Cons.IH r by blast
qed

lemma foldl_plus_sum_list:
  fixes a :: real
  shows "foldl (\<lambda>acc item. acc + item) a xs = a + sum_list xs"
  by (induction xs arbitrary: a) simp_all

lemma get_portfolio_value_exact:
  "get_portfolio_value_fl (\<lambda>x. x) pm prices = get_portfolio_value pm prices"
  by (simp add: get_portfolio_value_fl_def get_portfolio_value_def foldl_plus_sum_list)

lemma get_available_cash_exact:
  "get_available_cash_for_stock_fl (\<lambda>x. x) pm prices = get_available_cash_for_stock pm prices"
  by (simp add: get_available_cash_for_stock_fl_def get_available_cash_for_stock_def
      get_portfolio_value_exact)

lemma can_buy_exact:
  "can_buy_fl (\<lambda>x. x) pm stock price prices = can_buy pm stock price prices"
  by (simp add: can_buy_fl_def can_buy_def get_available_cash_exact cong: sum.case_cong if_cong)

lemma execute_buy_exact:
  "execute_buy_fl (\<lambda>x. x) pm stock price date prices = execute_buy pm stock price date prices"
  by (simp add: execute_buy_fl_def execute_buy_def can_buy_exact cong: sum.case_cong)

lemma execute_sell_exact:
  "execute_sell_fl (\<lambda>x. x) pm stock price date = execute_sell pm stock price date"
  by (simp add: execute_sell_fl_def execute_sell_def cong: sum.case_cong)

lemma update_daily_value_exact:
  "update_daily_value_fl (\<lambda>x. x) pm date prices = update_daily_value pm date prices"
  by (simp add: update_daily_value_fl_def update_daily_value_def get_portfolio_value_exact)

lemma process_signals_exact:
  "process_signals_fl (\<lambda>x. x) rows date prices pm = process_signals rows date prices pm"
proof (induction rows arbitrary: pm)
  case Nil
  then show ?case by simp
next
  case (Cons a rows)
  obtain ticker row where a: "a = (ticker, row)" by (cases a)
  show ?case unfolding a
    by (simp add: execute_buy_exact execute_sell_exact Cons.IH Let_def
        split: sum.splits prod.splits)
qed

lemma simulate_day_exact:
  "simulate_day_fl (\<lambda>x. x) sigs pm date = simulate_day sigs pm date"
  by (simp add: simulate_day_fl_def simulate_day_def process_signals_exact
      update_daily_value_exact Let_def split: sum.splits)

lemma simulate_dates_exact:
  "simulate_dates_fl (\<lambda>x. x) sigs dates pm = simulate_dates sigs dates pm"
  by (induction dates arbitrary: pm) (simp_all add: simulate_day_exact cong: sum.case_cong)

lemma simulate_exact: "simulate_fl (\<lambda>x. x) cfg sigs = simulate cfg sigs"
  by (simp add: simulate_fl_def simulate_def simulate_dates_exact)

lemma solvent_run:
  assumes "rounding fl u" and "valid_config cfg" and "fl (initial_cash cfg) = initial_cash cfg"
    and "commission cfg \<le> 1" and "commission_covered u cfg" and "positive_prices sigs"
    and r: "simulate_fl fl cfg sigs = Inr pm"
  shows "solvent fl cfg pm"
proof -
  have init: "solvent fl cfg (PortfolioManager_init cfg (map fst sigs))"
    using assms(2,3) by (simp add: solvent_def cash_nonnegative_def PortfolioManager_init_def valid_config_def)
  show ?thesis
  proof (rule simulate_dates_fl_invariant[where P = "solvent fl cfg", OF _ _ _ init r[unfolded simulate_fl_def]])
    fix pm date ticker row ok pm'
    assume s: "solvent fl cfg pm" and m: "(ticker, row) \<in> set (rows_on sigs date)"
      and e: "execute_buy_fl fl pm ticker (close row) date (current_prices_on sigs date) = Inr (ok, pm')"
    have p: "0 < close row" using positive_prices_rows_on[OF assms(6) m] .
    have pr: "\<forall>(ticker, p) \<in> set (current_prices_on sigs date). 0 < p"
      using positive_prices_current[OF assms(6)] by blast
    show "solvent fl cfg pm'"
      using solvent_buy_fl[OF assms(1) s p pr assms(2,5) e] .
  next
    fix pm date ticker row ok pm'
    assume s: "solvent fl cfg pm" and m: "(ticker, row) \<in> set (rows_on sigs date)"
      and e: "execute_sell_fl fl pm ticker (close row) date = Inr (ok, pm')"
    have p: "0 < close row" using positive_prices_rows_on[OF assms(6) m] .
    have c0: "0 \<le> commission cfg" using assms(2) by (simp add: valid_config_def)
    show "solvent fl cfg pm'"
      using solvent_sell_fl[OF assms(1) s p c0 assms(4) e] .
  next
    fix pm date
    assume "solvent fl cfg pm"
    then show "solvent fl cfg (update_daily_value_fl fl pm date (current_prices_on sigs date))"
      by (rule solvent_snapshot_fl)
  qed
qed


text \<open>
  Claim C5, as the code has it. \<^verbatim>\<open>can_buy\<close> sizes a BUY by the available cash alone,
  and \<^verbatim>\<open>execute_buy\<close> charges the commission on top of it. With a valid configuration and
  positive prices the cash of every trade record and of every daily snapshot of a run
  that returns is not negative, provided the commission rate is at most 1 and the
  commission of a BUY is covered by the cash that the sizing leaves aside
  (\<open>commission_covered\<close>: with exact arithmetic, \<open>c * m \<le> r\<close> or
  \<open>(1 + c) * (1 - r) \<le> 1\<close>). The statement is about the engine with the rounding of
  every float operation written out, for any rounding \<open>fl\<close> of unit roundoff \<open>u\<close>,
  the initial cash being a float; the margin that \<open>commission_covered\<close> asks grows
  with \<open>u\<close>.
\<close>

theorem cash_never_negative:
  assumes "rounding fl u" and "valid_config cfg" and "fl (initial_cash cfg) = initial_cash cfg"
    and "commission cfg \<le> 1" and "commission_covered u cfg" and "positive_prices sigs"
    and "simulate_fl fl cfg sigs = Inr pm"
  shows "cash_nonnegative pm"
  using solvent_run[OF assms] by (simp add: solvent_def)

theorem cash_never_negative_witness:
  "rounding (\<lambda>x. x) (1 / 2 ^ 53) \<and> valid_config default_config
   \<and> initial_cash default_config = initial_cash default_config
   \<and> commission default_config \<le> 1 \<and> commission_covered (1 / 2 ^ 53) default_config
   \<and> positive_prices round_trip_signals
   \<and> simulate_fl (\<lambda>x. x) default_config round_trip_signals = Inr round_trip_manager
   \<and> cash_nonnegative round_trip_manager"
proof -
  have ro: "rounding (\<lambda>x. x) (1 / 2 ^ 53)" by (simp add: rounding_def)
  have v: "valid_config default_config"
    by (simp add: valid_config_def default_config_def)
  have p: "positive_prices round_trip_signals"
    by (simp add: positive_prices_def round_trip_signals_def)
  have c: "commission default_config \<le> 1"
    by (simp add: default_config_def)
  have cc: "commission_covered (1 / 2 ^ 53) default_config"
    by (simp add: commission_covered_def default_config_def power_divide)
  have run: "simulate_fl (\<lambda>x. x) default_config round_trip_signals = Inr round_trip_manager"
    using round_trip_run by (simp add: simulate_exact)
  from cash_never_negative [OF ro v _ c cc p run]
  have "cash_nonnegative round_trip_manager" by simp
  with ro v p c cc run show ?thesis by simp
qed

text \<open>
  With the identity for \<open>fl\<close> the engine with rounding is the exact engine: in exact
  arithmetic the cash is never negative when \<open>c * m \<le> r\<close> or
  \<open>(1 + c) * (1 - r) \<le> 1\<close>.
\<close>

lemma exact_engine_cash:
  assumes "valid_config cfg" and "commission cfg \<le> 1"
    and "commission cfg * max_position_size cfg \<le> min_cash_reserve cfg
         \<or> (1 + commission cfg) * (1 - min_cash_reserve cfg) \<le> 1"
    and "positive_prices sigs" and "simulate cfg sigs = Inr pm"
  shows "cash_nonnegative pm"
proof -
  have r: "rounding (\<lambda>x. x) 0" by (simp add: rounding_def)
  have c: "commission_covered 0 cfg" using assms(3) by (simp add: commission_covered_def)
  have s: "simulate_fl (\<lambda>x. x) cfg sigs = Inr pm" using assms(5) by (simp add: simulate_exact)
  from solvent_run[OF r assms(1) _ assms(2) c assms(4) s] show ?thesis
    by (simp add: solvent_def)
qed

text \<open>
  Without the extra condition the cash does go negative. The configuration below is
  valid (no reserve, the whole cash allowed in one position, the default commission rate
  of 0.05 percent): the run of main.py's loop buys 10 shares at 100 with a cash of 1000,
  pays a commission of 0.5, and both the trade record and the daily snapshot hold a
  cash of -0.5.
\<close>

theorem cash_negative_counterexample:
  "valid_config no_reserve_config \<and> positive_prices one_buy_signals \<and>
   map_sum id (\<lambda>pm. (map t_cash_after (trade_log pm), map d_cash (daily_values pm)))
     (simulate no_reserve_config one_buy_signals) = Inr ([- 0.5], [- 0.5])"
  by code_simp

text \<open>
  \<^verbatim>\<open>run_portfolio_backtest\<close> itself, whose fractions are fixed at 0.25 and 0.1, ends with
  a negative cash when the configured commission rate is 5: the two shares bought at 100
  on day 3 cost 200 and a commission of 1000.
\<close>

lemma run_portfolio_backtest_overdrawn:
  "map_sum id (\<lambda>(pm, sigs). (map t_cash_after (trade_log pm), map d_cash (daily_values pm)))
     (run_portfolio_backtest zigzag_data (overlapping_cfg\<lparr>cfg_commission := 5\<rparr>))
   = Inr ([- 200], [1000, 1000, - 200, - 200, - 200])"
  by code_simp

section \<open>Maximum drawdown\<close>

lemma drawdown_loop_nonneg:
  "np_less_eq (Fin 0) m \<Longrightarrow> np_less_eq (Fin 0) (drawdown_loop values peak m)"
proof (induction "values" arbitrary: peak m)
  case Nil
  then show ?case by simp
next
  case (Cons v vs)
  define peak' where "peak' = (if v > peak then v else peak)"
  define dd where "dd = np_times (np_div (peak' - v) peak') 100"
  have "np_less_eq (Fin 0) (if np_greater dd m then dd else m)"
    using Cons.prems by (cases dd; cases m) (auto simp: np_greater_def)
  from Cons.IH[OF this, of peak'] show ?case
    by (simp only: drawdown_loop.simps Let_def peak'_def dd_def)
qed

lemma drawdown_loop_sorted:
  "sorted (peak # values) \<Longrightarrow> drawdown_loop values peak (Fin 0) = Fin 0"
proof (induction "values" arbitrary: peak)
  case Nil
  then show ?case by simp
next
  case (Cons v vs)
  from Cons.prems have le: "peak \<le> v" and s: "sorted (v # vs)" by auto
  have p: "(if v > peak then v else peak) = v" using le by auto
  have "np_times (np_div (v - v) v) 100 = Fin 0 \<or> np_times (np_div (v - v) v) 100 = NaN"
    by (simp add: np_div_def)
  then have "\<not> np_greater (np_times (np_div (v - v) v) 100) (Fin 0)"
    by (auto simp: np_greater_def)
  then show ?case using Cons.IH[OF s] p by (simp add: Let_def)
qed

lemma drawdown_loop_observed:
  assumes "pre \<noteq> []" and "0 < Max (set pre)"
  shows "drawdown_loop vs (Max (set pre)) (Fin m) =
           Fin (Max (insert m (drawdown_at (pre @ vs) ` {length pre ..< length pre + length vs})))"
  using assms
proof (induction vs arbitrary: pre m)
  case Nil
  then show ?case by simp
next
  case (Cons v vs)
  let ?peak = "Max (set pre)"
  define peak' where "peak' = (if v > ?peak then v else ?peak)"
  have "Max (set (pre @ [v])) = max v ?peak"
    using Cons.prems(1) by simp
  then have pk: "peak' = Max (set (pre @ [v]))"
    by (simp add: peak'_def max_def)
  have pos: "0 < peak'" using Cons.prems(2) by (auto simp: peak'_def)
  have rp: "running_peak (pre @ v # vs) (length pre) = peak'"
    by (simp add: running_peak_def pk)
  define dd where "dd = (peak' - v) / peak' * 100"
  have dd: "drawdown_at (pre @ v # vs) (length pre) = dd"
    by (simp add: drawdown_at_def rp dd_def)
  have step: "drawdown_loop (v # vs) ?peak (Fin m)
      = drawdown_loop vs peak' (Fin (if dd > m then dd else m))"
    using pos by (simp add: Let_def peak'_def[symmetric] np_div_def dd_def np_greater_def)
  have ne: "pre @ [v] \<noteq> []" by simp
  have pos': "0 < Max (set (pre @ [v]))" using pos pk by simp
  from Cons.IH[OF ne pos', of "if dd > m then dd else m"]
  have "drawdown_loop vs peak' (Fin (if dd > m then dd else m)) =
      Fin (Max (insert (if dd > m then dd else m)
         (drawdown_at (pre @ v # vs) ` {Suc (length pre) ..< Suc (length pre) + length vs})))"
    by (simp add: pk)
  moreover have "{length pre ..< length pre + length (v # vs)}
      = insert (length pre) {Suc (length pre) ..< Suc (length pre) + length vs}"
    by auto
  moreover have "Max (insert (if dd > m then dd else m) S) = Max (insert m (insert dd S))"
    if "finite S" for S
  proof (cases "S = {}")
    case True then show ?thesis by (auto simp: max_def)
  next
    case False
    with that show ?thesis by (auto simp: max_def)
  qed
  ultimately show ?case using step dd by simp
qed

lemma observed_drawdowns_first:
  assumes "0 < v"
  shows "set (observed_drawdowns (v # vs)) = insert 0 (drawdown_at (v # vs) ` {1 ..< 1 + length vs})"
proof -
  have i: "{0 ..< length (v # vs)} = insert 0 {1 ..< 1 + length vs}" by auto
  have z: "drawdown_at (v # vs) 0 = 0"
    by (simp add: drawdown_at_def running_peak_def)
  have "set (observed_drawdowns (v # vs)) = drawdown_at (v # vs) ` {0 ..< length (v # vs)}"
    unfolding observed_drawdowns_def by (simp only: set_map set_upt)
  also have "\<dots> = drawdown_at (v # vs) ` insert 0 {1 ..< 1 + length vs}"
    by (simp only: i)
  also have "\<dots> = insert (drawdown_at (v # vs) 0) (drawdown_at (v # vs) ` {1 ..< 1 + length vs})"
    by (rule image_insert)
  finally show ?thesis by (simp only: z)
qed

text \<open>
  Claim C7. \<^verbatim>\<open>_calculate_max_drawdown\<close> returns 0 when fewer than 2 snapshots exist.
  For every sequence of snapshots its result is not negative (it is a number that is
  at least 0, or an infinity when the peak is 0 and a later value is below it), and it is
  0 whenever the total values never decrease. When the first total value is positive the
  result is the greatest drawdown observed: the maximum, over the snapshots, of the fall
  from the greatest total value so far, in percent of that greatest value.
\<close>

theorem max_drawdown_properties:
  "(length (daily_values pm) < 2 \<longrightarrow> calculate_max_drawdown pm = Fin 0)
   \<and> np_less_eq (Fin 0) (calculate_max_drawdown pm)
   \<and> (sorted (map d_total_value (daily_values pm)) \<longrightarrow> calculate_max_drawdown pm = Fin 0)
   \<and> (2 \<le> length (daily_values pm) \<and> 0 < d_total_value (hd (daily_values pm)) \<longrightarrow>
        calculate_max_drawdown pm
          = Fin (Max (set (observed_drawdowns (map d_total_value (daily_values pm))))))"
proof (intro conjI impI)
  show "calculate_max_drawdown pm = Fin 0" if "length (daily_values pm) < 2"
    using that by (simp add: calculate_max_drawdown_def)
  show "np_less_eq (Fin 0) (calculate_max_drawdown pm)"
    using drawdown_loop_nonneg[of "Fin 0"] by (simp add: calculate_max_drawdown_def Let_def)
  show "calculate_max_drawdown pm = Fin 0"
    if h: "sorted (map d_total_value (daily_values pm))"
  proof (cases "daily_values pm")
    case Nil
    then show ?thesis by (simp add: calculate_max_drawdown_def)
  next
    case (Cons d ds)
    let ?vs = "map d_total_value (daily_values pm)"
    from Cons h have "sorted (hd ?vs # ?vs)" by simp
    then have "drawdown_loop ?vs (hd ?vs) (Fin 0) = Fin 0"
      by (rule drawdown_loop_sorted)
    then show ?thesis by (simp add: calculate_max_drawdown_def Let_def)
  qed
  show "calculate_max_drawdown pm
          = Fin (Max (set (observed_drawdowns (map d_total_value (daily_values pm)))))"
    if h: "2 \<le> length (daily_values pm) \<and> 0 < d_total_value (hd (daily_values pm))"
  proof -
    from h obtain d ds where ds: "daily_values pm = d # ds" and pos: "0 < d_total_value d"
      by (cases "daily_values pm") auto
    let ?v = "d_total_value d" and ?vs = "map d_total_value ds"
    have first: "drawdown_loop (?v # ?vs) ?v (Fin 0) = drawdown_loop ?vs ?v (Fin 0)"
      using pos by (simp add: Let_def np_div_def np_greater_def)
    have loop: "drawdown_loop ?vs (Max (set [?v])) (Fin 0) =
        Fin (Max (insert 0 (drawdown_at ([?v] @ ?vs) ` {length [?v] ..< length [?v] + length ?vs})))"
      by (rule drawdown_loop_observed) (use pos in simp_all)
    from h ds have "ds \<noteq> []" by auto
    then have "calculate_max_drawdown pm = drawdown_loop (?v # ?vs) ?v (Fin 0)"
      by (simp add: calculate_max_drawdown_def ds)
    also have "\<dots> = drawdown_loop ?vs ?v (Fin 0)" by (rule first)
    also have "\<dots> = Fin (Max (insert 0 (drawdown_at (?v # ?vs) ` {1 ..< 1 + length ?vs})))"
      using loop by simp
    also have "\<dots> = Fin (Max (set (observed_drawdowns (?v # ?vs))))"
      using observed_drawdowns_first[OF pos, of ?vs] by simp
    finally show ?thesis by (simp add: ds)
  qed
qed

theorem max_drawdown_properties_witness:
  "length (daily_values fresh_manager) < 2 \<and> calculate_max_drawdown fresh_manager = Fin 0
   \<and> 2 \<le> length (daily_values falling_manager)
   \<and> 0 < d_total_value (hd (daily_values falling_manager))
   \<and> observed_drawdowns (map d_total_value (daily_values falling_manager)) = [0, 10]
   \<and> calculate_max_drawdown falling_manager = Fin 10
   \<and> sorted (map d_total_value (daily_values round_trip_manager))
   \<and> calculate_max_drawdown round_trip_manager = Fin 0"
  using max_drawdown_properties [of fresh_manager]
    max_drawdown_properties [of falling_manager]
    max_drawdown_properties [of round_trip_manager]
  by (simp add: fresh_manager_def PortfolioManager_init_def falling_manager_def
      round_trip_manager_def observed_drawdowns_def drawdown_at_def running_peak_def
      upt_rec)

text \<open>
  Two snapshots with a total value of 0: the quotient is NaN, the comparison with it is
  false, and the metric is 0.
\<close>

lemma zero_totals_drawdown:
  "map d_total_value (daily_values worthless_manager) = [0, 0] \<and>
   calculate_max_drawdown worthless_manager = Fin 0"
  by (simp add: worthless_manager_def calculate_max_drawdown_def np_div_def np_greater_def)

section \<open>No validation of the configuration\<close>














text \<open>
  \<^verbatim>\<open>run_portfolio_backtest\<close> with a negative cash in the configuration file: the run
  returns, with a snapshot on each of the five days and no trade.
\<close>

lemma run_portfolio_backtest_negative_cash:
  "map_sum id (\<lambda>(pm, sigs). (map t_type (trade_log pm), map (\<lambda>d. (d_date d, d_cash d)) (daily_values pm)))
     (run_portfolio_backtest zigzag_data overdrawn_cfg)
   = Inr ([], [(1, - 1000), (2, - 1000), (3, - 1000), (4, - 1000), (5, - 1000)])"
  by code_simp

section \<open>The win ratio of the single-instrument summary\<close>

text \<open>
  Claim C2, as the code has it. The mean of lines 133 to 135 runs over all rows of the
  trade frame. For every non-empty trade log the win ratio is the number of SELL trades
  whose recorded price exceeds the recorded price of the trade record just before them,
  divided by the number of all trade records (BUY and SELL together); the summary
  reports it rounded to two decimals.
\<close>

theorem win_ratio_over_all_trades:
  "trades \<noteq> [] \<longrightarrow>
     win_ratio trades = Some (real (winning_sells trades) / real (length trades))
     \<and> (build_summary bt trades pnl = Inr s \<longrightarrow>
          win_ratio_cell s = Some (py_round (real (winning_sells trades) / real (length trades)) 2))"
  using win_ratio_counts[of trades]
  by (auto simp: build_summary_def Let_def split: if_splits)

lemma three_trades_summary_built:
  "build_summary plain_backtester three_trades [Some 1000, Some 1100] = Inr three_trades_summary"
  by code_simp

theorem win_ratio_over_all_trades_witness:
  "three_trades \<noteq> [] \<and> winning_sells three_trades = 1 \<and> length three_trades = 3
   \<and> win_ratio three_trades = Some (1 / 3)
   \<and> build_summary plain_backtester three_trades [Some 1000, Some 1100] = Inr three_trades_summary
   \<and> win_ratio_cell three_trades_summary = Some (py_round (1 / 3) 2)"
  using win_ratio_over_all_trades
          [of three_trades plain_backtester "[Some 1000, Some 1100]" three_trades_summary]
    three_trades_summary_built
  by (simp add: three_trades_def)

text \<open>
  One BUY at 100 and one SELL at 110: the only SELL is a winning one, so the fraction of
  SELL trades that win is 1, and the code reports 1 / 2.
\<close>

theorem win_ratio_counterexample:
  "two_trades \<noteq> [] \<and> sell_count two_trades = 1 \<and> winning_sells two_trades = 1
   \<and> spec_win_ratio two_trades = 1 \<and> win_ratio two_trades = Some (1 / 2)
   \<and> map_sum id win_ratio_cell
        (build_summary plain_backtester two_trades [Some 1000, Some 1000, Some 1100])
       = Inr (Some (1 / 2))"
  by code_simp

section \<open>Signals that are NaN or missing on a price date\<close>

lemma pad_lookup_none:
  assumes "sorted_wrt (<) labels" and "length cells = length labels"
    and "pad_lookup (zip labels cells) d = None"
  shows "\<forall>d' \<in> set labels. d < d'"
proof (cases labels)
  case Nil
  then show ?thesis by simp
next
  case (Cons l ls)
  with assms(2) obtain x xs where cells: "cells = x # xs" by (cases cells) auto
  from assms(3) Cons cells have "d < l" by (auto split: if_splits option.splits)
  moreover from assms(1) Cons have "\<forall>d' \<in> set ls. l < d'" by simp
  ultimately show ?thesis using Cons by auto
qed

lemma pad_lookup_latest:
  assumes "sorted_wrt (<) labels" and "length cells = length labels"
    and "pad_lookup (zip labels cells) d = Some c"
  shows "\<exists>i. latest_row labels d i \<and> cells ! i = c"
  using assms
proof (induction labels arbitrary: cells)
  case Nil
  then show ?case by simp
next
  case (Cons l ls)
  from Cons.prems(2) obtain x xs where cells: "cells = x # xs" and len: "length xs = length ls"
    by (cases cells) auto
  from Cons.prems(1) have sorted: "sorted_wrt (<) ls" and low: "\<forall>d' \<in> set ls. l < d'" by simp_all
  from Cons.prems(3) cells have le: "l \<le> d" by (auto split: if_splits)
  show ?case
  proof (cases "pad_lookup (zip ls xs) d")
    case None
    with Cons.prems(3) cells le have c: "c = x" by simp
    from pad_lookup_none[OF sorted len None] have "\<forall>d' \<in> set ls. d < d'" .
    then have "latest_row (l # ls) d 0" using le by (auto simp: latest_row_def)
    with c cells show ?thesis by auto
  next
    case (Some y)
    with Cons.prems(3) cells le have c: "y = c" by simp
    from Cons.IH[OF sorted len Some[unfolded c]] obtain i where
      i: "latest_row ls d i" "xs ! i = c" by blast
    then have "i < length ls" by (simp add: latest_row_def)
    then have "l < ls ! i" using low by simp
    with i(1) have "latest_row (l # ls) d (Suc i)"
      by (auto simp: latest_row_def)
    with i(2) cells show ?thesis by auto
  qed
qed

lemma reindex_true_cell:
  assumes "sorted_wrt (<) labels" and "length cells = length labels"
    and "reindex_ffill labels cells new_index = Inr out"
    and "(d, True) \<in> set (zip new_index (fillna_False out))"
  shows "\<exists>i. latest_row labels d i \<and> cells ! i = Some True"
proof (cases "labels = new_index")
  case True
  with assms(3) have out: "out = cells" by (simp add: reindex_ffill_def)
  from assms(4) obtain i where i: "i < length new_index" "new_index ! i = d"
    "i < length (fillna_False out)" "fillna_False out ! i = True"
    by (auto simp: in_set_zip)
  then have "cells ! i = Some True"
    unfolding out fillna_False_def by (auto split: option.splits)
  moreover have "latest_row labels d i"
    using i(1,2) True by (auto simp: latest_row_def)
  ultimately show ?thesis by blast
next
  case False
  with assms(1,3) have out:
    "out = map (\<lambda>d. case pad_lookup (zip labels cells) d of None \<Rightarrow> None | Some c \<Rightarrow> c) new_index"
    by (auto simp: reindex_ffill_def)
  from assms(4) obtain i where i: "i < length new_index" "new_index ! i = d"
    "i < length (fillna_False out)" "fillna_False out ! i = True"
    by (auto simp: in_set_zip)
  then have "pad_lookup (zip labels cells) d = Some (Some True)"
    unfolding out fillna_False_def by (auto split: option.splits)
  from pad_lookup_latest[OF assms(1,2) this] show ?thesis .
qed

text \<open>
  Claim C8, as the code has it. \<^verbatim>\<open>run\<close> aligns the signals with
  \<^verbatim>\<open>reindex(df.index, method="ffill")\<close> before \<^verbatim>\<open>fillna(False)\<close>. For signals dated
  in strictly ascending order, every trade of a run is on a price date, and a BUY (a
  SELL) on a date is triggered only when the latest signals row dated at or before that
  date holds a true buy (sell) flag. So a flag that is NaN in that row, and a date
  before the first signals row, are treated as false; a price date that the signals do
  not have takes the flags of the latest signals row before it.
\<close>

theorem trades_need_a_true_flag:
  assumes "run bt h price_df signals = (Inr (trades, pnl_df, s), bt', h')"
    and "signals < length h"
    and "sorted_wrt (<) (df_index (h ! signals))"
    and "col_buy (h ! signals) = Some buys" and "length buys = length (df_index (h ! signals))"
    and "col_sell (h ! signals) = Some sells" and "length sells = length (df_index (h ! signals))"
    and "t \<in> set trades"
  shows "x_date t \<in> set (df_index (h ! price_df))
         \<and> (x_type t = BUY \<longrightarrow>
              (\<exists>i. latest_row (df_index (h ! signals)) (x_date t) i \<and> buys ! i = Some True))
         \<and> (x_type t = SELL \<longrightarrow>
              (\<exists>i. latest_row (df_index (h ! signals)) (x_date t) i \<and> sells ! i = Some True))"
proof -
  from run_trades[OF assms(1,2,8)] obtain abuys asells row_buy row_sell where
    al: "align_signals (h ! signals) (df_index (h ! price_df)) = Inr (abuys, asells)"
    and zb: "(x_date t, row_buy) \<in> set (zip (df_index (h ! price_df)) abuys)"
    and zs: "(x_date t, row_sell) \<in> set (zip (df_index (h ! price_df)) asells)"
    and d: "x_date t \<in> set (df_index (h ! price_df))"
    and f: "x_type t = BUY \<longrightarrow> row_buy" "x_type t = SELL \<longrightarrow> row_sell"
    by metis
  from al assms(4,6) obtain ob os where
    rb: "reindex_ffill (df_index (h ! signals)) buys (df_index (h ! price_df)) = Inr ob"
    and rs: "reindex_ffill (df_index (h ! signals)) sells (df_index (h ! price_df)) = Inr os"
    and ab: "abuys = fillna_False ob" and as: "asells = fillna_False os"
    by (auto simp: align_signals_def split: sum.splits)
  have "\<exists>i. latest_row (df_index (h ! signals)) (x_date t) i \<and> buys ! i = Some True"
    if "x_type t = BUY"
    using reindex_true_cell[OF assms(3,5) rb, of "x_date t"] zb f(1) that ab by simp
  moreover have "\<exists>i. latest_row (df_index (h ! signals)) (x_date t) i \<and> sells ! i = Some True"
    if "x_type t = SELL"
    using reindex_true_cell[OF assms(3,7) rs, of "x_date t"] zs f(2) that as by simp
  ultimately show ?thesis using d by blast
qed

theorem trades_need_a_true_flag_witness:
  "fst (run plain_backtester [three_day_prices, gapped_signals] 0 1)
     = Inr (two_trades,
            \<lparr>datetime_index = True, df_index = [1, 2, 3], col_close = None, col_buy = None,
              col_sell = None, col_qty = None, col_cash = None,
              col_equity = Some [Some 1000, Some 1000, Some 1100]\<rparr>,
            \<lparr>initial_cash_cell = 1000, final_nav_cell = Some 1100, total_return_cell = Some 10,
              trades_cell = 2, win_ratio_cell = Some (1 / 2)\<rparr>)
   \<and> (1::nat) < length [three_day_prices, gapped_signals]
   \<and> sorted_wrt (<) (df_index gapped_signals)
   \<and> col_buy gapped_signals = Some [Some True, Some False]
   \<and> col_sell gapped_signals = Some [Some False, Some True]
   \<and> hd two_trades \<in> set two_trades \<and> x_type (hd two_trades) = BUY \<and> x_date (hd two_trades) = 2
   \<and> (\<exists>i. latest_row (df_index gapped_signals) 2 i \<and> [Some True, Some False] ! i = Some True)"
  using trades_need_a_true_flag
          [OF gapped_run, of "[Some True, Some False]" "[Some False, Some True]" "hd two_trades"]
    gapped_run
  by (simp add: gapped_signals_def two_trades_def)

text \<open>
  A signal that is missing on a price date and is not treated as false. The prices have
  the days 1, 2 and 3, the signals have rows on the days 1 and 3 only; day 1 carries a
  buy flag that cannot be acted on (the close of 2000 exceeds the cash of 1000). Day 2,
  which the signals do not have, takes the buy flag of day 1, and the run buys 10
  shares at 100 on day 2.
\<close>

theorem missing_signal_counterexample:
  "2 \<in> set (df_index three_day_prices) \<and> 2 \<notin> set (df_index gapped_signals)
   \<and> map_sum id (\<lambda>(trades, pnl_df, s). map (\<lambda>t. (x_date t, x_type t, x_qty t)) trades)
        (fst (run plain_backtester [three_day_prices, gapped_signals] 0 1))
       = Inr [(2, BUY, 10), (3, SELL, 10)]"
  by code_simp

text \<open>A NaN flag on a price date triggers nothing.\<close>

lemma nan_signal_no_trade:
  "map_sum id (\<lambda>(trades, pnl_df, s). trades)
     (fst (run plain_backtester [three_day_prices, nan_signals] 0 1)) = Inr []"
  by code_simp

text \<open>
  Signals dated in descending order are accepted too, and there a missing date takes the
  flags of the row before its place in that order, which is dated after it: with a buy
  flag on day 3 and none on day 1, the run buys on day 2.
\<close>

lemma descending_signals_run:
  "map_sum id (\<lambda>(trades, pnl_df, s). map (\<lambda>t. (x_date t, x_type t, x_qty t)) trades)
     (fst (run plain_backtester [three_day_prices, descending_signals] 0 1))
       = Inr [(2, BUY, 10)]"
  by code_simp

section \<open>The arguments of \<^verbatim>\<open>Backtester.run\<close> are left as they were\<close>

text \<open>
  Claim C10. Whatever \<^verbatim>\<open>run\<close> returns or raises, every object that was in the store
  before the call is equal to its value before the call; in particular the frames
  \<open>price_df\<close> and \<open>signals\<close>, also when both are the same object. The derived columns
  and the equity values are written to the copies that \<^verbatim>\<open>run\<close> makes, which take
  new addresses.
\<close>

theorem run_leaves_arguments_unchanged:
  assumes "run bt h price_df signals = (res, bt', h')"
  shows "take (length h) h' = h
         \<and> (price_df < length h \<longrightarrow> h' ! price_df = h ! price_df)
         \<and> (signals < length h \<longrightarrow> h' ! signals = h ! signals)"
proof -
  have t: "take (length h) h' = h" using assms by (rule run_heap)
  have "h' ! r = h ! r" if "r < length h" for r
  proof -
    from that have "take (length h) h' ! r = h' ! r" by (rule nth_take)
    then show ?thesis by (simp only: t)
  qed
  then show ?thesis using t by blast
qed

lemma combined_run_heap:
  "take 1 (snd (snd (run plain_backtester [combined_frame] 0 0))) = [combined_frame]"
  by code_simp

theorem run_leaves_arguments_unchanged_witness:
  "(0::nat) < length [three_day_prices, gapped_signals]
   \<and> (1::nat) < length [three_day_prices, gapped_signals]
   \<and> length (snd (snd (run plain_backtester [three_day_prices, gapped_signals] 0 1))) = 4
   \<and> snd (snd (run plain_backtester [three_day_prices, gapped_signals] 0 1)) ! 0 = three_day_prices
   \<and> snd (snd (run plain_backtester [three_day_prices, gapped_signals] 0 1)) ! 1 = gapped_signals
   \<and> take 1 (snd (snd (run plain_backtester [combined_frame] 0 0))) = [combined_frame]"
  using run_leaves_arguments_unchanged [OF gapped_run] gapped_run combined_run_heap
  by simp

section \<open>Both flags on a day the instrument is held\<close>

text \<open>
  The two flags of a row exclude each other when the thresholds of the strategy are
  apart, as the default 30 and 70 are: a row with both flags needs a configuration file
  whose thresholds overlap.
\<close>

lemma thresholds_apart_exclusive:
  assumes "buy_rsi cfg \<le> sell_rsi cfg" and "buy_rsi cfg \<le> 55" and "45 \<le> sell_rsi cfg"
    and "(d, row) \<in> set (generate_signals cfg df)"
  shows "\<not> (buy row \<and> sell row)"
proof -
  from assms(4) obtain c r bull bear where
    row: "row = \<lparr>close = c,
              buy = (np_less r (Fin (real_of_int (buy_rsi cfg))) \<or> (np_less r (Fin 45) \<and> bull)),
              sell = (np_greater r (Fin (real_of_int (sell_rsi cfg))) \<or> (np_greater r (Fin 55) \<and> bear))\<rparr>"
    by (auto simp: generate_signals_def)
  have b: "real_of_int (buy_rsi cfg) \<le> real_of_int (sell_rsi cfg)" "real_of_int (buy_rsi cfg) \<le> 55"
    "45 \<le> real_of_int (sell_rsi cfg)"
    using assms(1-3) by linarith+
  show ?thesis unfolding row using b
    by (cases r) (auto simp: np_greater_def)
qed

text \<open>
  In general: for an instrument that is held, a true buy flag leaves the portfolio as it
  is, whatever the sell flag says.
\<close>

lemma buy_flag_masks_sell:
  assumes "buy row" and "0 < positions portfolio ticker" and "ticker \<in> set (stocks portfolio)"
  shows "process_signals ((ticker, row) # rest) date current_prices portfolio
           = process_signals rest date current_prices portfolio"
  using assms
  by (simp add: execute_buy_def can_buy_def positions_item_def Let_def)

text \<open>
  The single-instrument loop on prices and flags of that kind (a buy flag on day 1, both
  flags on day 2): its buy branch is guarded by \<^verbatim>\<open>self._position == 0\<close>, so on day 2
  the \<^verbatim>\<open>elif\<close> branch is reached and the ten shares are sold.
\<close>

lemma backtester_sells_on_both_flags:
  "map_sum id (\<lambda>(trades, pnl_df, s). map (\<lambda>t. (x_date t, x_type t, x_qty t)) trades)
     (fst (run plain_backtester [combined_frame] 0 0)) = Inr [(1, BUY, 10), (2, SELL, 10)]"
  by code_simp

text \<open>
  Claim C1 at a concrete call of \<^verbatim>\<open>run_portfolio_backtest\<close>. The configuration file
  has a cash of 1000, no commission and a strategy that buys below an RSI of 60 and
  sells above an RSI of 40, the RSI being taken over 2 days. The close of instrument A
  alternates between 100 and 102 over five days, so that its RSI is 50 from day 3 on and
  \<^verbatim>\<open>generate_signals\<close> sets both flags on the days 3, 4 and 5. On day 3 the instrument
  is bought (two shares at 100). On the days 4 and 5 it is held and both flags are
  true: \<^verbatim>\<open>execute_buy\<close> refuses, the \<^verbatim>\<open>elif\<close> branch with \<^verbatim>\<open>execute_sell\<close> is not
  reached, and the run ends with the single BUY record and the two shares still held.
\<close>

theorem both_flags_while_long_no_sell:
  "map_sum id (\<lambda>(pm, sigs).
        (map (\<lambda>(ticker, df). (ticker, map (\<lambda>(d, row). (d, buy row, sell row)) df)) sigs,
         map (\<lambda>t. (t_date t, t_type t, t_quantity t)) (trade_log pm),
         map (\<lambda>d. (d_date d, d_positions d)) (daily_values pm),
         positions pm ''A''))
     (run_portfolio_backtest zigzag_data overlapping_cfg)
   = Inr ([(''A'', [(1, False, False), (2, False, False), (3, True, True), (4, True, True),
                   (5, True, True)])],
          [(3, BUY, 2)],
          [(1, [(''A'', 0)]), (2, [(''A'', 0)]), (3, [(''A'', 2)]), (4, [(''A'', 2)]),
           (5, [(''A'', 2)])],
          2)"
  by code_simp

end
